theory Spec2Isabelle
  imports Complex_Main
begin

section \<open>The idle/first-touch swallow daemon of kiosk_idle.py\<close>

text \<open>
  The theory embeds class \<^verbatim>\<open>IdleSwallowDaemon\<close> of \<^verbatim>\<open>haoskiosk/kiosk_idle.py\<close>.
  The object's fields are a record that every method takes and returns. What the
  X server, the clock and the shell answer during a call is an argument of the call
  (\<open>env\<close>), so each method is a function of the state and of those answers. What the
  daemon does to the display, the panel and the log is appended to the field \<open>trace\<close>,
  in the order of the source's statements.

  Conventions of the model:
  \<^item> seconds are \<open>real\<close> numbers where Python has floats, so \<open>0.05\<close> is \<open>5 / 100\<close>
    and \<open>info.idle / 1000.0\<close> is an exact quotient;
  \<^item> a call into python-xlib or \<^verbatim>\<open>subprocess\<close> that has a field in \<open>env\<close> either
    returns (\<open>Reply\<close>) or raises an \<^verbatim>\<open>Exception\<close> (\<open>Fails\<close>); a call that raises leaves
    no entry in the trace; the other calls (reading the event queue, \<^verbatim>\<open>select\<close>,
    \<^verbatim>\<open>change_attributes\<close>) write no field of the daemon and are taken to return;
  \<^item> the constants of the modules \<^verbatim>\<open>Xlib.X\<close> and \<^verbatim>\<open>Xlib.ext.xinput\<close> are not part of the
    repository: they are the parameter \<open>xlib\<close>, the second one partial because the
    source asks \<^verbatim>\<open>hasattr\<close>;
  \<^item> an event is its core type (\<^verbatim>\<open>ev.type\<close>) and, for an XI2 event, its raw type
    (\<^verbatim>\<open>ev.evtype\<close>); XI2 events reach the daemon through the selection that the
    constructor makes, which is what \<open>xi2_raw_enabled\<close> records;
  \<^item> log lines are recorded with their fixed text, without the interpolated values;
    the debug lines of \<^verbatim>\<open>log_event\<close> write nothing to the state and are left out;
  \<^item> signals (\<^verbatim>\<open>KeyboardInterrupt\<close>) end the process and are not modelled.
\<close>

subsection \<open>Data\<close>

datatype error = XError

datatype 'a reply = Reply 'a | Fails

datatype effect =
    Run string
  | Sleep real
  | CreateWindow nat
  | MapWindow nat
  | UnmapWindow nat
  | DestroyWindow nat
  | Sync
  | Flush
  | XISelectEvents "nat list"
  | LogInfo string
  | LogWarning string

record daemon =
  timeout :: int
  overlay :: "nat option"
  blanked :: bool
  last_activity :: real
  ss_available :: bool
  xi2_raw_enabled :: bool
  trace :: "effect list"

text \<open>
  The answers of the outside world during one call: \<open>time_time\<close> is what
  \<^verbatim>\<open>time.time()\<close> returns, \<open>query_info\<close> the idle time in milliseconds of
  \<^verbatim>\<open>screensaver.query_info(...).reply()\<close>, \<open>create_window\<close> the id of the new window.
\<close>

record env =
  time_time :: real
  query_info :: "nat reply"
  subprocess_run :: "unit reply"
  create_window :: "nat reply"
  win_map :: "unit reply"
  ov_unmap :: "unit reply"
  ov_destroy :: "unit reply"
  disp_sync :: "unit reply"
  open_display :: "unit reply"
  xi_query_version :: "unit reply"
  xi_select_events :: "unit reply"
  disp_flush :: "unit reply"

record xlib =
  X :: "string \<Rightarrow> nat"
  xinput :: "string \<Rightarrow> nat option"

datatype event = Event (etype: nat) (evtype: "nat option")

definition emit :: "effect \<Rightarrow> daemon \<Rightarrow> daemon" where
  "emit x s = s\<lparr>trace := trace s @ [x]\<rparr>"

subsection \<open>The constructor\<close>

definition touch_names :: "string list" where
  "touch_names = [''RawTouchBegin'', ''RawTouchEnd'', ''RawTouchUpdate'']"

definition base_mask_names :: "string list" where
  "base_mask_names =
     [''RawMotion'', ''RawKeyPress'', ''RawKeyRelease'', ''RawButtonPress'', ''RawButtonRelease'']"

text \<open>
  Lines 97 to 102: the five raw kinds are read as attributes (a missing one raises
  \<^verbatim>\<open>AttributeError\<close>, here \<open>None\<close>), the touch kinds only where \<^verbatim>\<open>hasattr\<close> finds them.
\<close>

definition masks :: "xlib \<Rightarrow> nat list option" where
  "masks L =
     (case those (map (xinput L) base_mask_names) of
        None \<Rightarrow> None
      | Some base \<Rightarrow> Some (base @ List.map_filter (xinput L) touch_names))"

text \<open>Lines 93 to 109, the body of \<^verbatim>\<open>if not self.ss_available\<close>.\<close>

definition enable_xi2 :: "xlib \<Rightarrow> env \<Rightarrow> daemon \<Rightarrow> daemon" where
  "enable_xi2 L e s =
     (case xi_query_version e of
        Fails \<Rightarrow> emit (LogWarning ''Failed to enable XI2 raw events fallback'') s
      | Reply _ \<Rightarrow>
          (case masks L of
             None \<Rightarrow> emit (LogWarning ''Failed to enable XI2 raw events fallback'') s
           | Some ms \<Rightarrow>
               (case xi_select_events e of
                  Fails \<Rightarrow> emit (LogWarning ''Failed to enable XI2 raw events fallback'') s
                | Reply _ \<Rightarrow>
                    (case disp_flush e of
                       Fails \<Rightarrow>
                         emit (LogWarning ''Failed to enable XI2 raw events fallback'')
                           (emit (XISelectEvents ms) s)
                     | Reply _ \<Rightarrow>
                         emit (LogInfo ''XI2 raw event monitoring enabled for idle fallback'')
                           ((emit Flush (emit (XISelectEvents ms) s))
                              \<lparr>xi2_raw_enabled := True\<rparr>)))))"

text \<open>
  \<^verbatim>\<open>__init__\<close>. When \<^verbatim>\<open>display.Display()\<close> raises there is no daemon: the exception
  leaves the constructor.
\<close>

definition init :: "xlib \<Rightarrow> int \<Rightarrow> env \<Rightarrow> error + daemon" where
  "init L t e =
     (case open_display e of
        Fails \<Rightarrow> Inl XError
      | Reply _ \<Rightarrow>
          (let s0 = \<lparr>timeout = t, overlay = None, blanked = False,
                     last_activity = time_time e, ss_available = False,
                     xi2_raw_enabled = False, trace = []\<rparr>;
               s1 = (case query_info e of
                       Reply _ \<Rightarrow>
                         emit (LogInfo ''XScreenSaver extension detected for idle timing'')
                           (s0\<lparr>ss_available := True\<rparr>)
                     | Fails \<Rightarrow>
                         emit (LogInfo ''XScreenSaver extension NOT available; falling back to event-based idle timing'')
                           (s0\<lparr>ss_available := False\<rparr>));
               s2 = s1\<lparr>xi2_raw_enabled := False\<rparr>
           in Inr (if \<not> ss_available s2 then enable_xi2 L e s2 else s2)))"

subsection \<open>Utility command\<close>

text \<open>\<^verbatim>\<open>_run\<close>: the command is started; an exception of \<^verbatim>\<open>subprocess.run\<close> is logged.\<close>

definition run_cmd :: "env \<Rightarrow> string \<Rightarrow> daemon \<Rightarrow> daemon" where
  "run_cmd e cmd s =
     (case subprocess_run e of
        Reply _ \<Rightarrow> emit (Run cmd) s
      | Fails \<Rightarrow> emit (LogWarning ''command failed'') s)"

subsection \<open>Overlay management\<close>

definition create_overlay :: "env \<Rightarrow> daemon \<Rightarrow> (error + unit) \<times> daemon" where
  "create_overlay e s =
     (if overlay s \<noteq> None then (Inr (), s)
      else
        (case create_window e of
           Fails \<Rightarrow> (Inl XError, s)
         | Reply win \<Rightarrow>
             (case win_map e of
                Fails \<Rightarrow> (Inl XError, emit (CreateWindow win) s)
              | Reply _ \<Rightarrow>
                  (case disp_sync e of
                     Fails \<Rightarrow> (Inl XError, emit (MapWindow win) (emit (CreateWindow win) s))
                   | Reply _ \<Rightarrow>
                       (Inr (),
                        emit (LogInfo ''Overlay created and mapped; screen blanked'')
                          ((emit Sync (emit (MapWindow win) (emit (CreateWindow win) s)))
                             \<lparr>overlay := Some win\<rparr>))))))"

text \<open>
  The \<^verbatim>\<open>try\<close> block of \<^verbatim>\<open>destroy_overlay\<close> (lines 145 to 149), for the overlay \<open>w\<close>:
  it stops at the first call that raises.
\<close>

definition destroy_try :: "env \<Rightarrow> nat \<Rightarrow> daemon \<Rightarrow> (error + unit) \<times> daemon" where
  "destroy_try e w s =
     (case ov_unmap e of
        Fails \<Rightarrow> (Inl XError, s)
      | Reply _ \<Rightarrow>
          (case ov_destroy e of
             Fails \<Rightarrow> (Inl XError, emit (UnmapWindow w) s)
           | Reply _ \<Rightarrow>
               (case disp_sync e of
                  Fails \<Rightarrow> (Inl XError, emit (DestroyWindow w) (emit (UnmapWindow w) s))
                | Reply _ \<Rightarrow>
                    (Inr (),
                     emit (LogInfo ''Overlay destroyed'')
                       (emit Sync (emit (DestroyWindow w) (emit (UnmapWindow w) s)))))))"

text \<open>
  \<^verbatim>\<open>destroy_overlay\<close>: \<^verbatim>\<open>except Exception\<close> turns a raise of the \<^verbatim>\<open>try\<close> block into a
  warning, \<^verbatim>\<open>finally\<close> clears the handle on both paths. The first component of the
  result says whether an exception leaves the method.
\<close>

definition destroy_overlay :: "env \<Rightarrow> daemon \<Rightarrow> (error + unit) \<times> daemon" where
  "destroy_overlay e s =
     (case overlay s of
        None \<Rightarrow> (Inr (), s)
      | Some w \<Rightarrow>
          (case destroy_try e w s of
             (Inr _, s1) \<Rightarrow> (Inr (), s1\<lparr>overlay := None\<rparr>)
           | (Inl _, s1) \<Rightarrow>
               (Inr (), (emit (LogWarning ''failed destroying overlay'') s1)\<lparr>overlay := None\<rparr>)))"

subsection \<open>Blank and wake\<close>

definition blank_screen :: "env \<Rightarrow> daemon \<Rightarrow> (error + unit) \<times> daemon" where
  "blank_screen e s =
     (if blanked s then (Inr (), s)
      else
        (case create_overlay e s of
           (Inl x, s1) \<Rightarrow> (Inl x, s1)
         | (Inr _, s1) \<Rightarrow>
             (Inr (),
              emit (LogInfo ''Screen blanked (DPMS off)'')
                ((run_cmd e ''xset dpms force off'' s1)\<lparr>blanked := True\<rparr>))))"

definition wake_screen :: "env \<Rightarrow> daemon \<Rightarrow> (error + unit) \<times> daemon" where
  "wake_screen e s =
     (if \<not> blanked s then (Inr (), s)
      else
        (case destroy_overlay e (emit (Sleep (5 / 100)) (run_cmd e ''xset dpms force on'' s)) of
           (Inl x, s1) \<Rightarrow> (Inl x, s1)
         | (Inr _, s1) \<Rightarrow>
             (Inr (),
              emit (LogInfo ''Screen awakened; first touch swallowed'')
                (s1\<lparr>blanked := False, last_activity := time_time e\<rparr>))))"

subsection \<open>Idle time\<close>

definition get_idle_seconds :: "env \<Rightarrow> daemon \<Rightarrow> real \<times> daemon" where
  "get_idle_seconds e s =
     (if ss_available s then
        (case query_info e of
           Reply idle \<Rightarrow> (real idle / 1000, s)
         | Fails \<Rightarrow>
             (let s1 = (if ss_available s
                        then emit (LogWarning ''XScreenSaver query failed; reverting to fallback'') s
                        else s);
                  s2 = s1\<lparr>ss_available := False\<rparr>
              in (max 0 (time_time e - last_activity s2), s2)))
      else (max 0 (time_time e - last_activity s), s))"

subsection \<open>Event handling\<close>

text \<open>The dictionary \<^verbatim>\<open>core_names\<close> of lines 204 to 210, keyed by the constants of \<^verbatim>\<open>Xlib.X\<close>.\<close>

definition core_names :: "xlib \<Rightarrow> nat \<Rightarrow> string option" where
  "core_names L =
     [X L ''KeyPress'' \<mapsto> ''KeyPress'',
      X L ''KeyRelease'' \<mapsto> ''KeyRelease'',
      X L ''ButtonPress'' \<mapsto> ''ButtonPress'',
      X L ''ButtonRelease'' \<mapsto> ''ButtonRelease'',
      X L ''MotionNotify'' \<mapsto> ''MotionNotify'']"

definition raw_names :: "string list" where
  "raw_names =
     [''RawMotion'', ''RawKeyPress'', ''RawKeyRelease'', ''RawButtonPress'',
      ''RawButtonRelease'', ''RawTouchBegin'', ''RawTouchUpdate'', ''RawTouchEnd'']"

text \<open>
  The dictionary \<^verbatim>\<open>raw_map\<close> of lines 229 to 232: the names that \<^verbatim>\<open>xinput\<close> has, keyed by
  their values; a later name replaces an earlier one with the same value.
\<close>

definition raw_map :: "xlib \<Rightarrow> nat \<Rightarrow> string option" where
  "raw_map L =
     fold (\<lambda>name m. case xinput L name of None \<Rightarrow> m | Some c \<Rightarrow> m(c \<mapsto> name))
       raw_names Map.empty"

text \<open>Python's \<^verbatim>\<open>str\<close> of a non-negative integer, for \<^verbatim>\<open>f"RawUnknown({evtype_attr})"\<close>.\<close>

fun str :: "nat \<Rightarrow> string" where
  "str n =
     (if n < 10 then [''0123456789'' ! n]
      else str (n div 10) @ [''0123456789'' ! (n mod 10)])"

declare str.simps [simp del]

text \<open>The local \<^verbatim>\<open>raw_name\<close> of line 233, for the raw event type \<open>c\<close>.\<close>

definition raw_name :: "xlib \<Rightarrow> nat \<Rightarrow> string" where
  "raw_name L c =
     (case raw_map L c of
        Some n \<Rightarrow> n
      | None \<Rightarrow> ''RawUnknown('' @ str c @ '')'')"

definition wake_names :: "string list" where
  "wake_names = [''RawButtonPress'', ''RawTouchBegin'', ''RawKeyPress'']"

text \<open>
  The body of the \<^verbatim>\<open>while\<close> loop of \<^verbatim>\<open>process_events\<close> for one event (lines 194 to
  243), on the pair of the local \<^verbatim>\<open>activity\<close> and the daemon.
\<close>

definition handle_event ::
  "xlib \<Rightarrow> bool \<Rightarrow> event \<Rightarrow> env \<Rightarrow> bool \<times> daemon \<Rightarrow> (error + bool) \<times> daemon" where
  "handle_event L swallow_if_blanked ev e st =
     (case st of (activity, s) \<Rightarrow>
        if core_names L (etype ev) \<noteq> None then
          (if blanked s \<and> swallow_if_blanked then
             (case wake_screen e s of
                (Inl x, s1) \<Rightarrow> (Inl x, s1)
              | (Inr _, s1) \<Rightarrow> (Inr True, s1))
           else if \<not> ss_available s then (Inr True, s\<lparr>last_activity := time_time e\<rparr>)
           else (Inr True, s))
        else
          (case (xi2_raw_enabled s, evtype ev) of
             (True, Some c) \<Rightarrow>
               (if blanked s \<and> swallow_if_blanked \<and> List.member wake_names (raw_name L c) then
                  (case wake_screen e s of
                     (Inl x, s1) \<Rightarrow> (Inl x, s1)
                   | (Inr _, s1) \<Rightarrow> (Inr True, s1))
                else if \<not> ss_available s then
                  (Inr True, s\<lparr>last_activity := time_time e\<rparr>)
                else (Inr True, s))
           | _ \<Rightarrow> (Inr activity, s)))"

text \<open>
  The loop runs over the events that \<^verbatim>\<open>next_event\<close> hands out until
  \<^verbatim>\<open>pending_events\<close> is zero, each with the answers of the world while it is handled.
\<close>

fun process_loop ::
  "xlib \<Rightarrow> bool \<Rightarrow> (event \<times> env) list \<Rightarrow> bool \<times> daemon \<Rightarrow> (error + bool) \<times> daemon" where
  "process_loop L sw [] (activity, s) = (Inr activity, s)"
| "process_loop L sw ((ev, e) # rest) (activity, s) =
     (case handle_event L sw ev e (activity, s) of
        (Inl x, s1) \<Rightarrow> (Inl x, s1)
      | (Inr a1, s1) \<Rightarrow> process_loop L sw rest (a1, s1))"

definition process_events ::
  "xlib \<Rightarrow> bool \<Rightarrow> (event \<times> env) list \<Rightarrow> daemon \<Rightarrow> (error + bool) \<times> daemon" where
  "process_events L swallow_if_blanked batch s =
     process_loop L swallow_if_blanked batch (False, s)"

subsection \<open>Main loop\<close>

text \<open>
  Lines 251 to 260 of \<^verbatim>\<open>run\<close>: the timeout handed to \<^verbatim>\<open>select\<close>, \<open>None\<close> for a wait
  without bound.
\<close>

definition choose_wait :: "env \<Rightarrow> daemon \<Rightarrow> (error + real option) \<times> daemon" where
  "choose_wait e s =
     (if \<not> blanked s then
        (case get_idle_seconds e s of
           (idle_sec, s1) \<Rightarrow>
             (let remaining = real_of_int (timeout s1) - idle_sec
              in if remaining \<le> 0 then
                   (case blank_screen e s1 of
                      (Inl x, s2) \<Rightarrow> (Inl x, s2)
                    | (Inr _, s2) \<Rightarrow> (Inr None, s2))
                 else (Inr (Some remaining), s1)))
      else (Inr None, s))"

text \<open>
  What \<^verbatim>\<open>select\<close> finds during the wait: nothing, or the events that are then drained.
  One pass of the loop body continues with the next pass, leaves \<^verbatim>\<open>run\<close> with an
  exception, or never returns from a wait without bound on which nothing arrives.
\<close>

datatype arrival = Nothing | Events "(event \<times> env) list"

datatype outcome = Continue | Raised error | Blocked

definition run_iteration :: "xlib \<Rightarrow> env \<Rightarrow> arrival \<Rightarrow> daemon \<Rightarrow> outcome \<times> daemon" where
  "run_iteration L e a s =
     (case choose_wait e s of
        (Inl x, s1) \<Rightarrow> (Raised x, s1)
      | (Inr t, s1) \<Rightarrow>
          (case a of
             Nothing \<Rightarrow> (if t = None then (Blocked, s1) else (Continue, s1))
           | Events batch \<Rightarrow>
               (case process_events L True batch s1 of
                  (Inl x, s2) \<Rightarrow> (Raised x, s2)
                | (Inr _, s2) \<Rightarrow> (Continue, s2))))"

subsection \<open>Executions\<close>

text \<open>
  One call of a method of the daemon, or one pass of the main loop, with any answers of
  the world; \<open>later L s s'\<close> holds when \<open>s'\<close> comes from \<open>s\<close> by any number of them, and
  a state is reachable when it comes from a state that the constructor returns.
\<close>

inductive step :: "xlib \<Rightarrow> daemon \<Rightarrow> daemon \<Rightarrow> bool" for L :: xlib where
  step_blank: "step L s (snd (blank_screen e s))"
| step_wake: "step L s (snd (wake_screen e s))"
| step_idle: "step L s (snd (get_idle_seconds e s))"
| step_events: "step L s (snd (process_events L sw batch s))"
| step_wait: "step L s (snd (choose_wait e s))"
| step_iteration: "step L s (snd (run_iteration L e a s))"

inductive later :: "xlib \<Rightarrow> daemon \<Rightarrow> daemon \<Rightarrow> bool" for L :: xlib where
  later_refl: "later L s s"
| later_step: "later L s s' \<Longrightarrow> step L s' s'' \<Longrightarrow> later L s s''"

inductive reachable :: "xlib \<Rightarrow> daemon \<Rightarrow> bool" for L :: xlib where
  reachable_init: "init L t e = Inr s \<Longrightarrow> reachable L s"
| reachable_step: "reachable L s \<Longrightarrow> step L s s' \<Longrightarrow> reachable L s'"

subsection \<open>Notions used in the statements\<close>

text \<open>
  The invariant of the data model: the overlay handle is present exactly when the daemon
  is blanked.
\<close>

definition consistent :: "daemon \<Rightarrow> bool" where
  "consistent s = ((overlay s \<noteq> None) = blanked s)"

text \<open>
  The events that \<^verbatim>\<open>process_events\<close> takes down one of its two branches: the core
  input events (line 213) and, under the raw subscription, the XI2 events (line 227).
\<close>

definition observed :: "xlib \<Rightarrow> daemon \<Rightarrow> event \<Rightarrow> bool" where
  "observed L s ev \<longleftrightarrow>
     core_names L (etype ev) \<noteq> None \<or> (xi2_raw_enabled s \<and> evtype ev \<noteq> None)"

text \<open>
  The events for which the body calls \<^verbatim>\<open>wake_screen\<close> when the daemon is blanked and
  \<^verbatim>\<open>swallow_if_blanked\<close> holds (lines 214 and 234).
\<close>

definition wake_trigger :: "xlib \<Rightarrow> daemon \<Rightarrow> event \<Rightarrow> bool" where
  "wake_trigger L s ev \<longleftrightarrow>
     core_names L (etype ev) \<noteq> None \<or>
     (xi2_raw_enabled s \<and>
      (case evtype ev of None \<Rightarrow> False | Some c \<Rightarrow> List.member wake_names (raw_name L c)))"

text \<open>
  Concrete values for the examples: the event numbers of the X11 core protocol and of
  the XI2 protocol; a world in which every call returns; the daemon that the
  constructor returns in that world for a timeout of five seconds (\<open>started\<close>); a
  blanked daemon on the fallback path that holds window 7 and has the raw subscription
  (\<open>dark\<close>), and the same daemon awake (\<open>fallback\<close>).
\<close>

definition pyxlib :: xlib where
  "pyxlib =
     \<lparr>X = (\<lambda>n. case map_of [(''KeyPress'', 2), (''KeyRelease'', 3), (''ButtonPress'', 4),
                               (''ButtonRelease'', 5), (''MotionNotify'', 6)] n of
                   Some v \<Rightarrow> v | None \<Rightarrow> 0),
      xinput = map_of [(''RawKeyPress'', 13), (''RawKeyRelease'', 14), (''RawButtonPress'', 15),
                       (''RawButtonRelease'', 16), (''RawMotion'', 17), (''RawTouchBegin'', 22),
                       (''RawTouchUpdate'', 23), (''RawTouchEnd'', 24)]\<rparr>"

definition calm :: env where
  "calm =
     \<lparr>time_time = 100, query_info = Reply 0, subprocess_run = Reply (),
      create_window = Reply 7, win_map = Reply (), ov_unmap = Reply (),
      ov_destroy = Reply (), disp_sync = Reply (), open_display = Reply (),
      xi_query_version = Reply (), xi_select_events = Reply (), disp_flush = Reply ()\<rparr>"

definition started :: daemon where
  "started =
     \<lparr>timeout = 5, overlay = None, blanked = False, last_activity = 100,
      ss_available = True, xi2_raw_enabled = False,
      trace = [LogInfo ''XScreenSaver extension detected for idle timing'']\<rparr>"

definition dark :: daemon where
  "dark =
     \<lparr>timeout = 5, overlay = Some 7, blanked = True, last_activity = 100,
      ss_available = False, xi2_raw_enabled = True, trace = []\<rparr>"

definition fallback :: daemon where
  "fallback =
     \<lparr>timeout = 5, overlay = None, blanked = False, last_activity = 100,
      ss_available = False, xi2_raw_enabled = True, trace = []\<rparr>"

section \<open>Basic facts\<close>

lemma emit_fields [simp]:
  "timeout (emit x s) = timeout s"
  "overlay (emit x s) = overlay s"
  "blanked (emit x s) = blanked s"
  "last_activity (emit x s) = last_activity s"
  "ss_available (emit x s) = ss_available s"
  "xi2_raw_enabled (emit x s) = xi2_raw_enabled s"
  "trace (emit x s) = trace s @ [x]"
  by (simp_all add: emit_def)

lemma run_cmd_fields [simp]:
  "timeout (run_cmd e c s) = timeout s"
  "overlay (run_cmd e c s) = overlay s"
  "blanked (run_cmd e c s) = blanked s"
  "last_activity (run_cmd e c s) = last_activity s"
  "ss_available (run_cmd e c s) = ss_available s"
  "xi2_raw_enabled (run_cmd e c s) = xi2_raw_enabled s"
  by (simp_all add: run_cmd_def split: reply.splits)

lemma run_cmd_trace:
  "trace (run_cmd e c s) =
     trace s @ [case subprocess_run e of Reply _ \<Rightarrow> Run c | Fails \<Rightarrow> LogWarning ''command failed'']"
  by (simp add: run_cmd_def split: reply.splits)

lemma destroy_try_fields [simp]:
  "timeout (snd (destroy_try e w s)) = timeout s"
  "overlay (snd (destroy_try e w s)) = overlay s"
  "blanked (snd (destroy_try e w s)) = blanked s"
  "last_activity (snd (destroy_try e w s)) = last_activity s"
  "ss_available (snd (destroy_try e w s)) = ss_available s"
  "xi2_raw_enabled (snd (destroy_try e w s)) = xi2_raw_enabled s"
  by (simp_all add: destroy_try_def split: reply.splits)

lemma destroy_overlay_alt:
  "destroy_overlay e s =
     (case overlay s of
        None \<Rightarrow> (Inr (), s)
      | Some w \<Rightarrow>
          (Inr (),
           (if fst (destroy_try e w s) = Inr () then snd (destroy_try e w s)
            else emit (LogWarning ''failed destroying overlay'') (snd (destroy_try e w s)))
             \<lparr>overlay := None\<rparr>))"
proof (cases "overlay s")
  case None
  then show ?thesis by (simp add: destroy_overlay_def)
next
  case (Some w)
  obtain r s1 where d: "destroy_try e w s = (r, s1)" by (cases "destroy_try e w s")
  show ?thesis using Some d by (cases r) (simp_all add: destroy_overlay_def)
qed

lemma destroy_overlay_returns: "fst (destroy_overlay e s) = Inr ()"
  by (simp add: destroy_overlay_alt split: option.splits)

lemma destroy_overlay_fields [simp]:
  "timeout (snd (destroy_overlay e s)) = timeout s"
  "overlay (snd (destroy_overlay e s)) = None"
  "blanked (snd (destroy_overlay e s)) = blanked s"
  "last_activity (snd (destroy_overlay e s)) = last_activity s"
  "ss_available (snd (destroy_overlay e s)) = ss_available s"
  "xi2_raw_enabled (snd (destroy_overlay e s)) = xi2_raw_enabled s"
  by (simp_all add: destroy_overlay_alt split: option.splits)

lemma wake_screen_alt:
  "wake_screen e s =
     (if \<not> blanked s then (Inr (), s)
      else
        (Inr (),
         emit (LogInfo ''Screen awakened; first touch swallowed'')
           ((snd (destroy_overlay e (emit (Sleep (5 / 100)) (run_cmd e ''xset dpms force on'' s))))
              \<lparr>blanked := False, last_activity := time_time e\<rparr>)))"
proof -
  let ?s2 = "emit (Sleep (5 / 100)) (run_cmd e ''xset dpms force on'' s)"
  obtain s3 where d: "destroy_overlay e ?s2 = (Inr (), s3)"
    using destroy_overlay_returns [of e ?s2] by (cases "destroy_overlay e ?s2") simp
  show ?thesis using d by (simp add: wake_screen_def)
qed

lemma wake_screen_returns: "fst (wake_screen e s) = Inr ()"
  by (simp add: wake_screen_alt)

lemma wake_screen_fields [simp]:
  "timeout (snd (wake_screen e s)) = timeout s"
  "overlay (snd (wake_screen e s)) = (if blanked s then None else overlay s)"
  "blanked (snd (wake_screen e s)) = False"
  "last_activity (snd (wake_screen e s)) = (if blanked s then time_time e else last_activity s)"
  "ss_available (snd (wake_screen e s)) = ss_available s"
  "xi2_raw_enabled (snd (wake_screen e s)) = xi2_raw_enabled s"
  by (simp_all add: wake_screen_alt)

lemma create_overlay_fields [simp]:
  "timeout (snd (create_overlay e s)) = timeout s"
  "blanked (snd (create_overlay e s)) = blanked s"
  "last_activity (snd (create_overlay e s)) = last_activity s"
  "ss_available (snd (create_overlay e s)) = ss_available s"
  "xi2_raw_enabled (snd (create_overlay e s)) = xi2_raw_enabled s"
  by (simp_all add: create_overlay_def split: reply.splits)

lemma create_overlay_overlay:
  "overlay (snd (create_overlay e s)) = None \<longleftrightarrow>
     overlay s = None \<and> fst (create_overlay e s) \<noteq> Inr ()"
  by (simp add: create_overlay_def split: reply.splits)

lemma blank_screen_alt:
  "blank_screen e s =
     (if blanked s then (Inr (), s)
      else if fst (create_overlay e s) = Inr () then
        (Inr (),
         emit (LogInfo ''Screen blanked (DPMS off)'')
           ((run_cmd e ''xset dpms force off'' (snd (create_overlay e s)))\<lparr>blanked := True\<rparr>))
      else (Inl XError, snd (create_overlay e s)))"
proof -
  obtain r s1 where c: "create_overlay e s = (r, s1)" by (cases "create_overlay e s")
  show ?thesis
  proof (cases r)
    case (Inl x)
    then show ?thesis using c by (cases x) (simp add: blank_screen_def)
  next
    case (Inr u)
    then show ?thesis using c by (simp add: blank_screen_def)
  qed
qed

lemma blank_screen_fields [simp]:
  "timeout (snd (blank_screen e s)) = timeout s"
  "last_activity (snd (blank_screen e s)) = last_activity s"
  "ss_available (snd (blank_screen e s)) = ss_available s"
  "xi2_raw_enabled (snd (blank_screen e s)) = xi2_raw_enabled s"
  by (simp_all add: blank_screen_alt)

lemma blank_screen_blanked:
  "blanked (snd (blank_screen e s)) \<longleftrightarrow> blanked s \<or> fst (blank_screen e s) = Inr ()"
  by (simp add: blank_screen_alt)

lemma consistent_iff: "consistent s \<longleftrightarrow> (overlay s = None \<longleftrightarrow> \<not> blanked s)"
  by (auto simp: consistent_def)

lemma blank_screen_consistent: "consistent s \<Longrightarrow> consistent (snd (blank_screen e s))"
  by (simp add: consistent_iff blank_screen_alt create_overlay_overlay)

lemma wake_screen_consistent: "consistent s \<Longrightarrow> consistent (snd (wake_screen e s))"
  by (simp add: consistent_iff)

lemma get_idle_seconds_fields [simp]:
  "timeout (snd (get_idle_seconds e s)) = timeout s"
  "overlay (snd (get_idle_seconds e s)) = overlay s"
  "blanked (snd (get_idle_seconds e s)) = blanked s"
  "last_activity (snd (get_idle_seconds e s)) = last_activity s"
  "xi2_raw_enabled (snd (get_idle_seconds e s)) = xi2_raw_enabled s"
  by (simp_all add: get_idle_seconds_def Let_def split: reply.splits)

lemma get_idle_seconds_ss:
  "ss_available (snd (get_idle_seconds e s)) \<longleftrightarrow> ss_available s \<and> query_info e \<noteq> Fails"
  by (simp add: get_idle_seconds_def Let_def split: reply.splits)

lemma handle_event_alt:
  "handle_event L sw ev e (a, s) =
     (if \<not> observed L s ev then (Inr a, s)
      else if blanked s \<and> sw \<and> wake_trigger L s ev then (Inr True, snd (wake_screen e s))
      else if \<not> ss_available s then (Inr True, s\<lparr>last_activity := time_time e\<rparr>)
      else (Inr True, s))"
proof -
  obtain s1 where w: "wake_screen e s = (Inr (), s1)"
    using wake_screen_returns [of e s] by (cases "wake_screen e s") simp
  show ?thesis
    by (cases "evtype ev"; cases "xi2_raw_enabled s")
      (auto simp: handle_event_def observed_def wake_trigger_def w)
qed

lemma handle_event_fst: "fst (handle_event L sw ev e (a, s)) = Inr (a \<or> observed L s ev)"
  by (simp add: handle_event_alt)

lemma process_loop_Cons:
  "process_loop L sw ((ev, e) # rest) (a, s) =
     process_loop L sw rest (a \<or> observed L s ev, snd (handle_event L sw ev e (a, s)))"
proof -
  obtain s1 where h: "handle_event L sw ev e (a, s) = (Inr (a \<or> observed L s ev), s1)"
    using handle_event_fst [of L sw ev e a s] by (cases "handle_event L sw ev e (a, s)") simp
  show ?thesis by (simp add: h)
qed

lemma handle_event_snd: "snd (handle_event L sw ev e (a, s)) = snd (handle_event L sw ev e (b, s))"
  by (simp add: handle_event_alt)

lemma process_loop_returns: "\<exists>a'. fst (process_loop L sw batch (a, s)) = Inr a'"
proof (induction batch arbitrary: a s)
  case Nil
  show ?case by simp
next
  case (Cons x batch)
  obtain ev e where x: "x = (ev, e)" by (cases x)
  show ?case unfolding x process_loop_Cons by (rule Cons.IH)
qed

lemma process_loop_preserves:
  assumes "\<And>ev e a s. P s \<Longrightarrow> P (snd (handle_event L sw ev e (a, s)))"
  shows "P s \<Longrightarrow> P (snd (process_loop L sw batch (a, s)))"
proof (induction batch arbitrary: a s)
  case Nil
  then show ?case by simp
next
  case (Cons x batch)
  obtain ev e where x: "x = (ev, e)" by (cases x)
  show ?case unfolding x process_loop_Cons
    by (rule Cons.IH) (rule assms, rule Cons.prems)
qed

lemma choose_wait_alt:
  "choose_wait e s =
     (if blanked s then (Inr None, s)
      else if real_of_int (timeout s) - fst (get_idle_seconds e s) \<le> 0 then
        (if fst (blank_screen e (snd (get_idle_seconds e s))) = Inr ()
         then (Inr None, snd (blank_screen e (snd (get_idle_seconds e s))))
         else (Inl XError, snd (blank_screen e (snd (get_idle_seconds e s)))))
      else (Inr (Some (real_of_int (timeout s) - fst (get_idle_seconds e s))),
            snd (get_idle_seconds e s)))"
proof -
  obtain i s1 where g: "get_idle_seconds e s = (i, s1)" by (cases "get_idle_seconds e s")
  have t: "timeout s1 = timeout s" using get_idle_seconds_fields(1) [of e s] by (simp add: g)
  obtain r s2 where b: "blank_screen e s1 = (r, s2)" by (cases "blank_screen e s1")
  show ?thesis
  proof (cases r)
    case (Inl x)
    then show ?thesis using g t b by (cases x) (simp add: choose_wait_def)
  next
    case (Inr u)
    then show ?thesis using g t b by (simp add: choose_wait_def)
  qed
qed

lemma run_iteration_snd:
  "snd (run_iteration L e a s) =
     (case a of
        Nothing \<Rightarrow> snd (choose_wait e s)
      | Events batch \<Rightarrow>
          (if fst (choose_wait e s) = Inl XError then snd (choose_wait e s)
           else snd (process_events L True batch (snd (choose_wait e s)))))"
proof -
  obtain r s1 where c: "choose_wait e s = (r, s1)" by (cases "choose_wait e s")
  show ?thesis
  proof (cases r)
    case (Inl x)
    then show ?thesis using c by (cases x) (simp add: run_iteration_def split: arrival.splits)
  next
    case (Inr t)
    show ?thesis
    proof (cases a)
      case Nothing
      then show ?thesis using c Inr by (simp add: run_iteration_def)
    next
      case (Events batch)
      obtain r2 s2 where p: "process_events L True batch s1 = (r2, s2)"
        by (cases "process_events L True batch s1")
      show ?thesis using c Inr Events p by (cases r2) (simp_all add: run_iteration_def)
    qed
  qed
qed

lemma step_preserves:
  assumes blank: "\<And>e s. P s \<Longrightarrow> P (snd (blank_screen e s))"
    and wake: "\<And>e s. P s \<Longrightarrow> P (snd (wake_screen e s))"
    and idle: "\<And>e s. P s \<Longrightarrow> P (snd (get_idle_seconds e s))"
    and event: "\<And>sw ev e a s. P s \<Longrightarrow> P (snd (handle_event L sw ev e (a, s)))"
  shows "step L s s' \<Longrightarrow> P s \<Longrightarrow> P s'"
proof -
  have events: "P (snd (process_events L sw batch s))" if "P s" for sw batch s
    unfolding process_events_def
    by (rule process_loop_preserves [of P L sw]) (erule event, rule that)
  have wait: "P (snd (choose_wait e s))" if "P s" for e s
    using that by (simp add: choose_wait_alt blank idle)
  have iteration: "P (snd (run_iteration L e a s))" if "P s" for e a s
    using that by (simp add: run_iteration_snd wait events split: arrival.splits)
  show "step L s s' \<Longrightarrow> P s \<Longrightarrow> P s'"
    by (induction rule: step.induct) (simp_all add: blank wake idle events wait iteration)
qed

lemma later_preserves:
  assumes blank: "\<And>e s. P s \<Longrightarrow> P (snd (blank_screen e s))"
    and wake: "\<And>e s. P s \<Longrightarrow> P (snd (wake_screen e s))"
    and idle: "\<And>e s. P s \<Longrightarrow> P (snd (get_idle_seconds e s))"
    and event: "\<And>sw ev e a s. P s \<Longrightarrow> P (snd (handle_event L sw ev e (a, s)))"
  shows "later L s s' \<Longrightarrow> P s \<Longrightarrow> P s'"
proof (induction rule: later.induct)
  case (later_refl s)
  then show ?case .
next
  case (later_step s s' s'')
  show ?case
    by (rule step_preserves [of P, OF blank wake idle event later_step.hyps(2)])
      (simp_all add: later_step)
qed

lemma enable_xi2_fields [simp]:
  "timeout (enable_xi2 L e s) = timeout s"
  "overlay (enable_xi2 L e s) = overlay s"
  "blanked (enable_xi2 L e s) = blanked s"
  "last_activity (enable_xi2 L e s) = last_activity s"
  "ss_available (enable_xi2 L e s) = ss_available s"
  by (simp_all add: enable_xi2_def split: reply.splits option.splits)

lemma init_consistent: "init L t e = Inr s \<Longrightarrow> consistent s"
  by (auto simp: init_def consistent_iff Let_def split: reply.splits if_splits)

lemma get_idle_seconds_consistent: "consistent s \<Longrightarrow> consistent (snd (get_idle_seconds e s))"
  by (simp add: consistent_iff)

lemma handle_event_consistent:
  "consistent s \<Longrightarrow> consistent (snd (handle_event L sw ev e (a, s)))"
  by (simp add: handle_event_alt wake_screen_consistent) (simp add: consistent_iff)

lemma init_started: "init pyxlib 5 calm = Inr started"
  by (simp add: init_def calm_def started_def emit_def)

lemma fold_names_other:
  "c \<notin> set (List.map_filter f ns) \<Longrightarrow>
   fold (\<lambda>name m. case f name of None \<Rightarrow> m | Some c \<Rightarrow> m(c \<mapsto> name)) ns m c = m c"
  by (induction ns arbitrary: m) (auto simp: List.map_filter_simps split: option.splits)

lemma fold_names_found:
  "distinct (List.map_filter f ns) \<Longrightarrow> n \<in> set ns \<Longrightarrow> f n = Some c \<Longrightarrow>
   fold (\<lambda>name m. case f name of None \<Rightarrow> m | Some c \<Rightarrow> m(c \<mapsto> name)) ns m c = Some n"
proof (induction ns arbitrary: m)
  case Nil
  then show ?case by simp
next
  case (Cons x xs)
  show ?case
  proof (cases "n \<in> set xs")
    case True
    have "distinct (List.map_filter f xs)"
      using Cons.prems(1) by (simp add: List.map_filter_simps split: option.splits)
    from Cons.IH [OF this True Cons.prems(3)] show ?thesis by simp
  next
    case False
    then have nx: "x = n" using Cons.prems(2) by simp
    have "c \<notin> set (List.map_filter f xs)"
      using Cons.prems(1,3) nx by (simp add: List.map_filter_simps)
    then show ?thesis using nx Cons.prems(3) by (simp add: fold_names_other)
  qed
qed

lemma fold_names_sound:
  "fold (\<lambda>name m. case f name of None \<Rightarrow> m | Some c \<Rightarrow> m(c \<mapsto> name)) ns m c = Some n \<Longrightarrow>
   (n \<in> set ns \<and> f n = Some c) \<or> m c = Some n"
proof (induction ns arbitrary: m)
  case Nil
  then show ?case by simp
next
  case (Cons x xs)
  from Cons.IH [of "case f x of None \<Rightarrow> m | Some c \<Rightarrow> m(c \<mapsto> x)"] Cons.prems
  show ?case by (auto split: option.splits if_splits)
qed

lemma raw_map_sound: "raw_map L c = Some n \<Longrightarrow> n \<in> set raw_names \<and> xinput L n = Some c"
  using fold_names_sound [of "xinput L" raw_names Map.empty c n] by (simp add: raw_map_def)

lemma raw_map_found:
  "distinct (List.map_filter (xinput L) raw_names) \<Longrightarrow> n \<in> set raw_names \<Longrightarrow>
   xinput L n = Some c \<Longrightarrow> raw_map L c = Some n"
  unfolding raw_map_def by (rule fold_names_found)

lemma raw_name_found:
  "distinct (List.map_filter (xinput L) raw_names) \<Longrightarrow> n \<in> set raw_names \<Longrightarrow>
   xinput L n = Some c \<Longrightarrow> raw_name L c = n"
  by (simp add: raw_name_def raw_map_found)

lemma raw_name_wake:
  "distinct (List.map_filter (xinput L) raw_names) \<Longrightarrow>
   raw_name L c \<in> set wake_names \<longleftrightarrow> (\<exists>n \<in> set wake_names. xinput L n = Some c)"
proof
  assume "raw_name L c \<in> set wake_names"
  then obtain n where n: "raw_map L c = Some n" "n \<in> set wake_names"
    by (cases "raw_map L c") (simp_all add: raw_name_def wake_names_def)
  from raw_map_sound [OF n(1)] n(2) show "\<exists>n \<in> set wake_names. xinput L n = Some c" by blast
next
  assume d: "distinct (List.map_filter (xinput L) raw_names)"
  assume "\<exists>n \<in> set wake_names. xinput L n = Some c"
  then obtain n where n: "n \<in> set wake_names" "xinput L n = Some c" by blast
  have "n \<in> set raw_names" using n(1) by (auto simp: wake_names_def raw_names_def)
  from raw_name_found [OF d this n(2)] n(1) show "raw_name L c \<in> set wake_names" by simp
qed

lemma core_names_iff:
  "core_names L t \<noteq> None \<longleftrightarrow>
     t \<in> X L ` {''KeyPress'', ''KeyRelease'', ''ButtonPress'', ''ButtonRelease'', ''MotionNotify''}"
  by (auto simp: core_names_def)

lemma wake_trigger_same:
  "xi2_raw_enabled s = xi2_raw_enabled t \<Longrightarrow> wake_trigger L s ev = wake_trigger L t ev"
  by (simp add: wake_trigger_def)

lemma wake_trigger_observed: "wake_trigger L s ev \<Longrightarrow> observed L s ev"
  by (auto simp: wake_trigger_def observed_def split: option.splits)

lemma handle_event_xi2 [simp]:
  "xi2_raw_enabled (snd (handle_event L sw ev e (a, s))) = xi2_raw_enabled s"
  by (simp add: handle_event_alt)

lemma process_loop_append:
  "process_loop L sw (xs @ ys) (a, s) =
     (case process_loop L sw xs (a, s) of
        (Inl x, s1) \<Rightarrow> (Inl x, s1)
      | (Inr a1, s1) \<Rightarrow> process_loop L sw ys (a1, s1))"
proof (induction xs arbitrary: a s)
  case Nil
  show ?case by simp
next
  case (Cons x xs)
  obtain ev e where x: "x = (ev, e)" by (cases x)
  show ?case unfolding x append_Cons process_loop_Cons by (rule Cons.IH)
qed

lemma process_loop_snd:
  "snd (process_loop L sw batch (a, s)) = snd (process_loop L sw batch (b, s))"
proof (induction batch arbitrary: a b s)
  case Nil
  show ?case by simp
next
  case (Cons x xs)
  obtain ev e where x: "x = (ev, e)" by (cases x)
  show ?case unfolding x process_loop_Cons
    using Cons.IH handle_event_snd [of L sw ev e a s b] by simp
qed

lemma process_loop_activity: "fst (process_loop L sw batch (True, s)) = Inr True"
proof (induction batch arbitrary: s)
  case Nil
  show ?case by simp
next
  case (Cons x xs)
  obtain ev e where x: "x = (ev, e)" by (cases x)
  show ?case unfolding x process_loop_Cons using Cons.IH by simp
qed

lemma process_loop_quiet:
  assumes "\<forall>x \<in> set pre. \<not> wake_trigger L s (fst x)"
  shows "blanked (snd (process_loop L sw pre (a, s))) = blanked s
    \<and> trace (snd (process_loop L sw pre (a, s))) = trace s
    \<and> overlay (snd (process_loop L sw pre (a, s))) = overlay s
    \<and> ss_available (snd (process_loop L sw pre (a, s))) = ss_available s
    \<and> xi2_raw_enabled (snd (process_loop L sw pre (a, s))) = xi2_raw_enabled s"
  using assms
proof (induction pre arbitrary: a s)
  case Nil
  show ?case by simp
next
  case (Cons x xs)
  obtain ev e where x: "x = (ev, e)" by (cases x)
  let ?s1 = "snd (handle_event L sw ev e (a, s))"
  have nt: "\<not> wake_trigger L s ev" using Cons.prems x by simp
  then have h: "blanked ?s1 = blanked s" "trace ?s1 = trace s" "overlay ?s1 = overlay s"
    "ss_available ?s1 = ss_available s" "xi2_raw_enabled ?s1 = xi2_raw_enabled s"
    by (simp_all add: handle_event_alt)
  have "\<forall>x \<in> set xs. \<not> wake_trigger L ?s1 (fst x)"
    using Cons.prems wake_trigger_same [OF h(5)] by simp
  from Cons.IH [OF this] show ?case unfolding x process_loop_Cons by (simp add: h)
qed

lemma handle_event_awake:
  "\<not> blanked s \<Longrightarrow>
   \<not> blanked (snd (handle_event L sw ev e (a, s)))
   \<and> trace (snd (handle_event L sw ev e (a, s))) = trace s
   \<and> overlay (snd (handle_event L sw ev e (a, s))) = overlay s"
  by (simp add: handle_event_alt)

lemma process_loop_awake:
  assumes "\<not> blanked s"
  shows "\<not> blanked (snd (process_loop L sw batch (a, s)))
    \<and> trace (snd (process_loop L sw batch (a, s))) = trace s
    \<and> overlay (snd (process_loop L sw batch (a, s))) = overlay s"
  by (rule process_loop_preserves
      [of "\<lambda>t. \<not> blanked t \<and> trace t = trace s \<and> overlay t = overlay s" L sw s batch a])
    (simp_all add: handle_event_awake assms)

lemma process_loop_swallow_irrelevant:
  "\<not> blanked s \<Longrightarrow> process_loop L True batch (a, s) = process_loop L False batch (a, s)"
proof (induction batch arbitrary: a s)
  case Nil
  show ?case by simp
next
  case (Cons x xs)
  obtain ev e where x: "x = (ev, e)" by (cases x)
  have h: "handle_event L True ev e (a, s) = handle_event L False ev e (a, s)"
    using Cons.prems by (simp add: handle_event_alt)
  have "\<not> blanked (snd (handle_event L False ev e (a, s)))"
    using Cons.prems by (simp add: handle_event_awake)
  from Cons.IH [OF this] show ?case unfolding x process_loop_Cons h by simp
qed

lemma first_trigger:
  assumes b: "blanked s"
    and pre: "\<forall>x \<in> set pre. \<not> wake_trigger L s (fst x)"
    and ev: "wake_trigger L s ev"
  shows "process_events L True (pre @ (ev, e) # post) s =
           (Inr True,
            snd (process_events L True post (snd (wake_screen e (snd (process_events L True pre s))))))"
proof -
  obtain a1 s1 where p: "process_loop L True pre (False, s) = (Inr a1, s1)"
    using process_loop_returns [of L True pre False s]
    by (cases "process_loop L True pre (False, s)") auto
  have s1: "snd (process_events L True pre s) = s1" by (simp add: process_events_def p)
  have q: "blanked s1" "xi2_raw_enabled s1 = xi2_raw_enabled s"
    using process_loop_quiet [OF pre, of True False] b by (simp_all add: p)
  have t: "wake_trigger L s1 ev" using ev wake_trigger_same [OF q(2)] by simp
  have h: "handle_event L True ev e (a1, s1) = (Inr True, snd (wake_screen e s1))"
    using q(1) t wake_trigger_observed [OF t] by (simp add: handle_event_alt)
  have "process_loop L True (pre @ (ev, e) # post) (False, s) =
      process_loop L True post (True, snd (wake_screen e s1))"
    by (simp add: process_loop_append p h)
  moreover have "fst (process_loop L True post (True, snd (wake_screen e s1))) = Inr True"
    by (rule process_loop_activity)
  moreover have "snd (process_loop L True post (True, snd (wake_screen e s1))) =
      snd (process_loop L True post (False, snd (wake_screen e s1)))"
    by (rule process_loop_snd)
  ultimately show ?thesis
    by (simp add: process_events_def prod_eq_iff s1 [unfolded process_events_def])
qed

lemma process_events_awake:
  assumes "\<not> blanked s"
  shows "\<not> blanked (snd (process_events L sw batch s))"
    and "trace (snd (process_events L sw batch s)) = trace s"
    and "overlay (snd (process_events L sw batch s)) = overlay s"
    and "process_events L True batch s = process_events L False batch s"
  using process_loop_awake [OF assms, where L = L and sw = sw and batch = batch and a = False]
    process_loop_swallow_irrelevant [OF assms, where L = L and batch = batch and a = False]
  by (simp_all add: process_events_def)

lemma process_events_quiet:
  assumes "\<forall>x \<in> set pre. \<not> wake_trigger L s (fst x)"
  shows "blanked (snd (process_events L sw pre s)) = blanked s"
    and "trace (snd (process_events L sw pre s)) = trace s"
    and "overlay (snd (process_events L sw pre s)) = overlay s"
  using process_loop_quiet [OF assms, where sw = sw and a = False] by (simp_all add: process_events_def)

lemma scenario_E:
  assumes b: "blanked s" and x: "xi2_raw_enabled s"
    and d: "distinct (List.map_filter (xinput L) raw_names)"
    and g: "core_names L g = None"
    and c1: "xinput L ''RawTouchBegin'' = Some c1"
    and c2: "xinput L ''RawMotion'' = Some c2"
    and c3: "xinput L ''RawButtonPress'' = Some c3"
  shows "process_events L True
           [(Event g (Some c1), e1), (Event g (Some c2), e2), (Event g (Some c3), e3)] s =
         (Inr True,
          if ss_available s then snd (wake_screen e1 s)
          else (snd (wake_screen e1 s))\<lparr>last_activity := time_time e3\<rparr>)"
proof -
  have "raw_name L c1 = ''RawTouchBegin''"
    by (rule raw_name_found [OF d _ c1]) (simp add: raw_names_def)
  then have t: "wake_trigger L s (Event g (Some c1))"
    using x by (simp add: wake_trigger_def wake_names_def)
  have o: "observed L t (Event g (Some c))" if "xi2_raw_enabled t" for t c
    using that by (simp add: observed_def)
  show ?thesis
    using b x t by (simp add: process_events_def process_loop_Cons handle_event_alt o)
qed

lemma create_overlay_present: "overlay s \<noteq> None \<Longrightarrow> create_overlay e s = (Inr (), s)"
  by (simp add: create_overlay_def)

lemma create_overlay_done:
  "fst (create_overlay e s) = Inr () \<Longrightarrow> overlay (snd (create_overlay e s)) \<noteq> None"
  using create_overlay_overlay [of e s] by simp

lemma destroy_try_fails:
  "(fst (destroy_try e w s) = Inl XError) =
     (ov_unmap e = Fails \<or> ov_destroy e = Fails \<or> disp_sync e = Fails)"
  by (simp add: destroy_try_def split: reply.splits)

lemma select_blank_screen:
  "XISelectEvents ms \<in> set (trace (snd (blank_screen e s))) \<longleftrightarrow>
     XISelectEvents ms \<in> set (trace s)"
  by (simp add: blank_screen_alt create_overlay_def run_cmd_def split: reply.splits)

lemma select_wake_screen:
  "XISelectEvents ms \<in> set (trace (snd (wake_screen e s))) \<longleftrightarrow>
     XISelectEvents ms \<in> set (trace s)"
  by (simp add: wake_screen_alt destroy_overlay_alt destroy_try_def run_cmd_def
      split: reply.splits option.splits)

lemma select_get_idle_seconds:
  "XISelectEvents ms \<in> set (trace (snd (get_idle_seconds e s))) \<longleftrightarrow>
     XISelectEvents ms \<in> set (trace s)"
  by (simp add: get_idle_seconds_def Let_def split: reply.splits)

lemma select_handle_event:
  "XISelectEvents ms \<in> set (trace (snd (handle_event L sw ev e (a, s)))) \<longleftrightarrow>
     XISelectEvents ms \<in> set (trace s)"
  by (simp add: handle_event_alt select_wake_screen)

lemma init_raw:
  "init L t e = Inr s0 \<Longrightarrow> xi2_raw_enabled s0 \<Longrightarrow> query_info e = Fails \<and> \<not> ss_available s0"
  by (auto simp: init_def Let_def split: reply.splits if_splits)

lemma init_no_raw:
  "init L t e = Inr s0 \<Longrightarrow> query_info e \<noteq> Fails \<Longrightarrow>
   \<not> xi2_raw_enabled s0 \<and> ss_available s0 \<and> XISelectEvents ms \<notin> set (trace s0)"
  by (auto simp: init_def Let_def split: reply.splits if_splits)

lemma reachable_consistent: "reachable L s \<Longrightarrow> consistent s"
proof (induction rule: reachable.induct)
  case (reachable_init t e s)
  then show ?case by (rule init_consistent)
next
  case (reachable_step s s')
  show ?case
    by (rule step_preserves [of consistent, OF _ _ _ _ reachable_step.hyps(2) reachable_step.IH])
      (simp_all add: blank_screen_consistent wake_screen_consistent
        get_idle_seconds_consistent handle_event_consistent)
qed

lemma create_overlay_returns:
  "overlay s = None \<Longrightarrow>
   (fst (create_overlay e s) = Inr ()) =
     (create_window e \<noteq> Fails \<and> win_map e \<noteq> Fails \<and> disp_sync e \<noteq> Fails)"
  by (simp add: create_overlay_def split: reply.splits)

lemma create_overlay_raises:
  "fst (create_overlay e s) \<noteq> Inr () \<Longrightarrow>
   fst (create_overlay e s) = Inl XError \<and> overlay (snd (create_overlay e s)) = None"
  by (simp add: create_overlay_def split: reply.splits if_splits)

lemma run_iteration_raises:
  "fst (choose_wait e s) = Inl x \<Longrightarrow> fst (run_iteration L e a s) = Raised x"
  by (cases "choose_wait e s") (simp add: run_iteration_def)

lemma run_iteration_nothing:
  "fst (run_iteration L e Nothing s) =
     (case fst (choose_wait e s) of
        Inl x \<Rightarrow> Raised x
      | Inr None \<Rightarrow> Blocked
      | Inr (Some t) \<Rightarrow> Continue)"
  by (cases "choose_wait e s") (auto simp: run_iteration_def split: sum.splits option.splits)

section \<open>Claims\<close>

text \<open>
  C1. In every reachable state of the daemon (the state that the constructor returns, and
  any state after any sequence of \<^verbatim>\<open>blank_screen\<close>, \<^verbatim>\<open>wake_screen\<close>, \<^verbatim>\<open>get_idle_seconds\<close>,
  \<^verbatim>\<open>process_events\<close> and passes of the main loop, also one that ends in an exception)
  the overlay handle is present if and only if \<open>blanked\<close> is true.
\<close>

theorem overlay_iff_blanked: "reachable L s \<Longrightarrow> (overlay s \<noteq> None) = blanked s"
proof -
  assume "reachable L s"
  then have "consistent s"
  proof (induction rule: reachable.induct)
    case (reachable_init t e s)
    then show ?case by (rule init_consistent)
  next
    case (reachable_step s s')
    show ?case
      by (rule step_preserves [of consistent, OF _ _ _ _ reachable_step.hyps(2) reachable_step.IH])
        (simp_all add: blank_screen_consistent wake_screen_consistent
          get_idle_seconds_consistent handle_event_consistent)
  qed
  then show ?thesis by (simp add: consistent_def)
qed

text \<open>
  The instance of C1 at the state after the constructor and one \<^verbatim>\<open>blank_screen\<close>: the
  daemon is blanked and holds the window 7.
\<close>

theorem overlay_iff_blanked_witness:
  "((overlay (snd (blank_screen calm started)) \<noteq> None) = blanked (snd (blank_screen calm started)))
   \<and> blanked (snd (blank_screen calm started))
   \<and> overlay (snd (blank_screen calm started)) = Some 7"
proof -
  have "reachable pyxlib (snd (blank_screen calm started))"
    by (rule reachable_step [OF reachable_init [OF init_started] step_blank])
  from overlay_iff_blanked [OF this]
  show ?thesis
    by (simp add: blank_screen_def create_overlay_def run_cmd_def calm_def started_def emit_def)
qed

text \<open>
  C2. For an event handled while \<open>blanked\<close> is true, with \<^verbatim>\<open>swallow_if_blanked\<close> at its
  default as \<^verbatim>\<open>run\<close> calls \<^verbatim>\<open>process_events\<close>, and with the raw kinds of \<^verbatim>\<open>xinput\<close> numbered
  apart: every core KeyPress, KeyRelease, ButtonPress, ButtonRelease and MotionNotify
  event takes the Wake transition; an event on the raw-event path (not a core event,
  raw subscription enabled, raw type \<open>c\<close>) takes it exactly when \<open>c\<close> is RawButtonPress,
  RawTouchBegin or RawKeyPress; an event of kind RawMotion, RawKeyRelease,
  RawButtonRelease, RawTouchUpdate or RawTouchEnd leaves the daemon blanked. The Wake
  transition is the result of \<^verbatim>\<open>wake_screen\<close>, after which \<open>blanked\<close> is false.
\<close>

theorem wake_on_qualifying_event:
  assumes b: "blanked s" and d: "distinct (List.map_filter (xinput L) raw_names)"
  shows
    "(etype ev \<in> X L ` {''KeyPress'', ''KeyRelease'', ''ButtonPress'', ''ButtonRelease'', ''MotionNotify''} \<longrightarrow>
        handle_event L True ev e (a, s) = (Inr True, snd (wake_screen e s)))
     \<and> (etype ev \<notin> X L ` {''KeyPress'', ''KeyRelease'', ''ButtonPress'', ''ButtonRelease'', ''MotionNotify''}
          \<and> xi2_raw_enabled s \<and> evtype ev = Some c \<longrightarrow>
        (if \<exists>n \<in> {''RawButtonPress'', ''RawTouchBegin'', ''RawKeyPress''}. xinput L n = Some c
         then handle_event L True ev e (a, s) = (Inr True, snd (wake_screen e s))
         else blanked (snd (handle_event L True ev e (a, s)))))
     \<and> (\<forall>n \<in> {''RawMotion'', ''RawKeyRelease'', ''RawButtonRelease'', ''RawTouchUpdate'', ''RawTouchEnd''}.
          etype ev \<notin> X L ` {''KeyPress'', ''KeyRelease'', ''ButtonPress'', ''ButtonRelease'', ''MotionNotify''}
          \<and> evtype ev = Some c \<and> xinput L n = Some c \<longrightarrow>
          blanked (snd (handle_event L True ev e (a, s))))
     \<and> \<not> blanked (snd (wake_screen e s))"
proof (intro conjI impI ballI)
  assume "etype ev \<in> X L ` {''KeyPress'', ''KeyRelease'', ''ButtonPress'', ''ButtonRelease'', ''MotionNotify''}"
  then have "core_names L (etype ev) \<noteq> None" by (simp only: core_names_iff)
  then show "handle_event L True ev e (a, s) = (Inr True, snd (wake_screen e s))"
    using b by (simp add: handle_event_alt observed_def wake_trigger_def)
next
  assume r: "etype ev \<notin> X L ` {''KeyPress'', ''KeyRelease'', ''ButtonPress'', ''ButtonRelease'', ''MotionNotify''}
    \<and> xi2_raw_enabled s \<and> evtype ev = Some c"
  then have core: "core_names L (etype ev) = None" using core_names_iff [of L "etype ev"] by blast
  have w: "wake_trigger L s ev \<longleftrightarrow>
      (\<exists>n \<in> {''RawButtonPress'', ''RawTouchBegin'', ''RawKeyPress''}. xinput L n = Some c)"
    using r core raw_name_wake [OF d, of c] by (simp add: wake_trigger_def wake_names_def)
  have "if wake_trigger L s ev
    then handle_event L True ev e (a, s) = (Inr True, snd (wake_screen e s))
    else blanked (snd (handle_event L True ev e (a, s)))"
    using r b by (simp add: handle_event_alt observed_def)
  then show "if \<exists>n \<in> {''RawButtonPress'', ''RawTouchBegin'', ''RawKeyPress''}. xinput L n = Some c
    then handle_event L True ev e (a, s) = (Inr True, snd (wake_screen e s))
    else blanked (snd (handle_event L True ev e (a, s)))"
    by (simp only: w)
next
  fix n
  assume n: "n \<in> {''RawMotion'', ''RawKeyRelease'', ''RawButtonRelease'', ''RawTouchUpdate'', ''RawTouchEnd''}"
  assume r: "etype ev \<notin> X L ` {''KeyPress'', ''KeyRelease'', ''ButtonPress'', ''ButtonRelease'', ''MotionNotify''}
    \<and> evtype ev = Some c \<and> xinput L n = Some c"
  then have core: "core_names L (etype ev) = None" using core_names_iff [of L "etype ev"] by blast
  have nr: "n \<in> set raw_names" and nw: "n \<notin> set wake_names"
    using n by (auto simp: raw_names_def wake_names_def)
  have "raw_name L c = n" using raw_name_found [OF d nr] r by simp
  then have "\<not> wake_trigger L s ev" using r core nw by (simp add: wake_trigger_def)
  then show "blanked (snd (handle_event L True ev e (a, s)))"
    using b by (simp add: handle_event_alt)
next
  show "\<not> blanked (snd (wake_screen e s))" by simp
qed

text \<open>
  The instance of C2 for a blanked daemon with the raw subscription: a ButtonPress (core
  type 4) and a RawButtonPress (raw type 15) wake it, a RawMotion (raw type 17) does not.
\<close>

theorem wake_on_qualifying_event_witness:
  "handle_event pyxlib True (Event 4 None) calm (False, dark) = (Inr True, snd (wake_screen calm dark))
   \<and> handle_event pyxlib True (Event 35 (Some 15)) calm (False, dark)
       = (Inr True, snd (wake_screen calm dark))
   \<and> blanked (snd (handle_event pyxlib True (Event 35 (Some 17)) calm (False, dark)))
   \<and> \<not> blanked (snd (wake_screen calm dark))"
proof -
  have b: "blanked dark" by (simp add: dark_def)
  have d: "distinct (List.map_filter (xinput pyxlib) raw_names)"
    by (simp add: pyxlib_def raw_names_def List.map_filter_simps)
  have x: "xi2_raw_enabled dark" by (simp add: dark_def)
  from wake_on_qualifying_event [OF b d, where ev = "Event 4 None" and e = calm and a = False and c = 0]
    wake_on_qualifying_event [OF b d, where ev = "Event 35 (Some 15)" and e = calm and a = False and c = 15]
    wake_on_qualifying_event [OF b d, where ev = "Event 35 (Some 17)" and e = calm and a = False and c = 17]
    x
  show ?thesis by (simp add: pyxlib_def)
qed

text \<open>
  C3 as stated fails. \<^verbatim>\<open>create_overlay\<close> has no handler (lines 126 to 137), and neither have
  \<^verbatim>\<open>blank_screen\<close> (line 159) and \<^verbatim>\<open>run\<close> (line 255). In the state that the constructor
  returns for a timeout of 5 s, with 6000 ms of idle time and an X server that refuses the
  window, the pass finds \<open>timeout - get_idle_seconds() \<le> 0\<close>, but nothing is blanked and
  there is no wait: the exception leaves the loop with the state untouched.
\<close>

theorem blank_raises_without_window:
  "init pyxlib 5 calm = Inr started
   \<and> \<not> blanked started
   \<and> real_of_int (timeout started)
       - fst (get_idle_seconds (calm\<lparr>query_info := Reply 6000, create_window := Fails\<rparr>) started) \<le> 0
   \<and> choose_wait (calm\<lparr>query_info := Reply 6000, create_window := Fails\<rparr>) started =
       (Inl XError, started)
   \<and> run_iteration pyxlib (calm\<lparr>query_info := Reply 6000, create_window := Fails\<rparr>) Nothing started =
       (Raised XError, started)
   \<and> overlay started = None"
proof -
  let ?e = "calm\<lparr>query_info := Reply 6000, create_window := Fails\<rparr>"
  have g: "get_idle_seconds ?e started = (6, started)"
    by (simp add: get_idle_seconds_def calm_def started_def)
  have b: "blank_screen ?e started = (Inl XError, started)"
    by (simp add: blank_screen_def create_overlay_def calm_def started_def)
  have c: "choose_wait ?e started = (Inl XError, started)"
    by (simp add: choose_wait_def g b) (simp add: started_def)
  show ?thesis
    by (simp add: init_started c run_iteration_def g) (simp add: started_def)
qed

text \<open>
  C3, amended. In a pass of the main loop that starts in a reachable state with \<open>blanked\<close>
  false: when \<open>timeout - get_idle_seconds() \<le> 0\<close> (that is, the idle time has reached the
  timeout) \<^verbatim>\<open>blank_screen\<close> runs before the wait and, when creating the overlay does not
  raise, Blank is performed: the window is created, mapped and held as the overlay, the
  power-off command is run, \<open>blanked\<close> is true, and the wait that follows has no bound.
  The pass reaches that wait exactly when creating the overlay does not raise; when it
  raises, the pass ends with the exception, not blanked and without overlay. Otherwise
  (\<open>timeout - get_idle_seconds() > 0\<close>) nothing is blanked, nothing is written to the trace
  and the bound of the wait is \<open>timeout - get_idle_seconds()\<close>. In a pass that starts with
  \<open>blanked\<close> true the wait has no bound and the state is untouched. A wait without bound
  on which nothing arrives never returns.
\<close>

theorem wait_timeout:
  assumes r: "reachable L s"
  shows
  "(blanked s \<longrightarrow>
      choose_wait e s = (Inr None, s) \<and> fst (run_iteration L e Nothing s) = Blocked)
   \<and> (\<not> blanked s \<and> real_of_int (timeout s) - fst (get_idle_seconds e s) \<le> 0 \<longrightarrow>
        snd (choose_wait e s) = snd (blank_screen e (snd (get_idle_seconds e s)))
        \<and> (fst (choose_wait e s) = Inr None) =
            (create_window e \<noteq> Fails \<and> win_map e \<noteq> Fails \<and> disp_sync e \<noteq> Fails)
        \<and> (\<forall>w. create_window e = Reply w \<and> win_map e = Reply () \<and> disp_sync e = Reply () \<longrightarrow>
              fst (choose_wait e s) = Inr None
              \<and> fst (run_iteration L e Nothing s) = Blocked
              \<and> blanked (snd (choose_wait e s))
              \<and> overlay (snd (choose_wait e s)) = Some w
              \<and> trace (snd (choose_wait e s)) =
                  trace (snd (get_idle_seconds e s)) @
                  [CreateWindow w, MapWindow w, Sync,
                   LogInfo ''Overlay created and mapped; screen blanked'',
                   case subprocess_run e of
                     Reply _ \<Rightarrow> Run ''xset dpms force off''
                   | Fails \<Rightarrow> LogWarning ''command failed'',
                   LogInfo ''Screen blanked (DPMS off)''])
        \<and> (create_window e = Fails \<or> win_map e = Fails \<or> disp_sync e = Fails \<longrightarrow>
              fst (choose_wait e s) = Inl XError
              \<and> fst (run_iteration L e a s) = Raised XError
              \<and> \<not> blanked (snd (choose_wait e s))
              \<and> overlay (snd (choose_wait e s)) = None))
   \<and> (\<not> blanked s \<and> \<not> real_of_int (timeout s) - fst (get_idle_seconds e s) \<le> 0 \<longrightarrow>
        choose_wait e s =
          (Inr (Some (real_of_int (timeout s) - fst (get_idle_seconds e s))),
           snd (get_idle_seconds e s))
        \<and> fst (run_iteration L e Nothing s) = Continue
        \<and> \<not> blanked (snd (choose_wait e s))
        \<and> overlay (snd (choose_wait e s)) = None
        \<and> trace (snd (choose_wait e s)) = trace (snd (get_idle_seconds e s)))
   \<and> (real_of_int (timeout s) - fst (get_idle_seconds e s) \<le> 0)
       = (real_of_int (timeout s) \<le> fst (get_idle_seconds e s))"
proof -
  let ?s1 = "snd (get_idle_seconds e s)"
  have c: "overlay s = None \<longleftrightarrow> \<not> blanked s"
    using reachable_consistent [OF r] by (simp add: consistent_iff)
  have a1: "choose_wait e s = (Inr None, s) \<and> fst (run_iteration L e Nothing s) = Blocked"
    if "blanked s"
    using that by (simp add: run_iteration_nothing choose_wait_alt)
  have a3: "choose_wait e s =
          (Inr (Some (real_of_int (timeout s) - fst (get_idle_seconds e s))), ?s1)
        \<and> fst (run_iteration L e Nothing s) = Continue
        \<and> \<not> blanked (snd (choose_wait e s))
        \<and> overlay (snd (choose_wait e s)) = None
        \<and> trace (snd (choose_wait e s)) = trace ?s1"
    if "\<not> blanked s \<and> \<not> real_of_int (timeout s) - fst (get_idle_seconds e s) \<le> 0"
    using that c by (simp add: run_iteration_nothing choose_wait_alt)
  have a2: "snd (choose_wait e s) = snd (blank_screen e ?s1)
        \<and> (fst (choose_wait e s) = Inr None) =
            (create_window e \<noteq> Fails \<and> win_map e \<noteq> Fails \<and> disp_sync e \<noteq> Fails)
        \<and> (\<forall>w. create_window e = Reply w \<and> win_map e = Reply () \<and> disp_sync e = Reply () \<longrightarrow>
              fst (choose_wait e s) = Inr None
              \<and> fst (run_iteration L e Nothing s) = Blocked
              \<and> blanked (snd (choose_wait e s))
              \<and> overlay (snd (choose_wait e s)) = Some w
              \<and> trace (snd (choose_wait e s)) =
                  trace ?s1 @
                  [CreateWindow w, MapWindow w, Sync,
                   LogInfo ''Overlay created and mapped; screen blanked'',
                   case subprocess_run e of
                     Reply _ \<Rightarrow> Run ''xset dpms force off''
                   | Fails \<Rightarrow> LogWarning ''command failed'',
                   LogInfo ''Screen blanked (DPMS off)''])
        \<and> (create_window e = Fails \<or> win_map e = Fails \<or> disp_sync e = Fails \<longrightarrow>
              fst (choose_wait e s) = Inl XError
              \<and> fst (run_iteration L e a s) = Raised XError
              \<and> \<not> blanked (snd (choose_wait e s))
              \<and> overlay (snd (choose_wait e s)) = None)"
    if h: "\<not> blanked s \<and> real_of_int (timeout s) - fst (get_idle_seconds e s) \<le> 0"
  proof -
    have o: "overlay ?s1 = None" "\<not> blanked ?s1" using h c by simp_all
    have cw: "choose_wait e s =
        (if fst (create_overlay e ?s1) = Inr ()
         then (Inr None, snd (blank_screen e ?s1))
         else (Inl XError, snd (blank_screen e ?s1)))"
      using h o by (simp add: choose_wait_alt blank_screen_alt)
    have ret: "(fst (create_overlay e ?s1) = Inr ()) =
        (create_window e \<noteq> Fails \<and> win_map e \<noteq> Fails \<and> disp_sync e \<noteq> Fails)"
      by (rule create_overlay_returns [OF o(1)])
    have ok: "fst (choose_wait e s) = Inr None
              \<and> fst (run_iteration L e Nothing s) = Blocked
              \<and> blanked (snd (choose_wait e s))
              \<and> overlay (snd (choose_wait e s)) = Some w
              \<and> trace (snd (choose_wait e s)) =
                  trace ?s1 @
                  [CreateWindow w, MapWindow w, Sync,
                   LogInfo ''Overlay created and mapped; screen blanked'',
                   case subprocess_run e of
                     Reply _ \<Rightarrow> Run ''xset dpms force off''
                   | Fails \<Rightarrow> LogWarning ''command failed'',
                   LogInfo ''Screen blanked (DPMS off)'']"
      if w: "create_window e = Reply w \<and> win_map e = Reply () \<and> disp_sync e = Reply ()" for w
    proof -
      have f: "fst (create_overlay e ?s1) = Inr ()" using ret w by simp
      have b: "snd (blank_screen e ?s1) =
          emit (LogInfo ''Screen blanked (DPMS off)'')
            ((run_cmd e ''xset dpms force off'' (snd (create_overlay e ?s1)))\<lparr>blanked := True\<rparr>)"
        using o f by (simp add: blank_screen_alt)
      have co: "overlay (snd (create_overlay e ?s1)) = Some w"
        "trace (snd (create_overlay e ?s1)) =
           trace ?s1 @ [CreateWindow w, MapWindow w, Sync,
                        LogInfo ''Overlay created and mapped; screen blanked'']"
        using o w by (simp_all add: create_overlay_def)
      have cwo: "choose_wait e s = (Inr None, snd (blank_screen e ?s1))" using cw f by simp
      show ?thesis
        by (simp add: run_iteration_nothing cwo b co run_cmd_trace)
    qed
    have bad: "fst (choose_wait e s) = Inl XError
              \<and> fst (run_iteration L e a s) = Raised XError
              \<and> \<not> blanked (snd (choose_wait e s))
              \<and> overlay (snd (choose_wait e s)) = None"
      if w: "create_window e = Fails \<or> win_map e = Fails \<or> disp_sync e = Fails"
    proof -
      have f: "fst (create_overlay e ?s1) \<noteq> Inr ()" using ret w by auto
      have cwo: "choose_wait e s = (Inl XError, snd (create_overlay e ?s1))"
        using cw f o by (simp add: blank_screen_alt)
      have "fst (run_iteration L e a s) = Raised XError"
        by (rule run_iteration_raises) (simp add: cwo)
      then show ?thesis
        using create_overlay_raises [OF f] o by (simp add: cwo)
    qed
    show ?thesis
      using cw ret ok bad by (simp split: if_splits)
  qed
  show ?thesis
    using a1 a2 a3 by (intro conjI impI) (blast, blast, blast, auto)
qed

text \<open>
  The instances of the amended C3, from the state that the constructor returns: with
  6000 ms of idle time the pass creates window 7, powers the panel off and waits without
  bound; with no idle time it waits 5 s; the blanked daemon waits without bound.
\<close>

theorem wait_timeout_witness:
  "fst (choose_wait (calm\<lparr>query_info := Reply 6000\<rparr>) started) = Inr None
   \<and> blanked (snd (choose_wait (calm\<lparr>query_info := Reply 6000\<rparr>) started))
   \<and> overlay (snd (choose_wait (calm\<lparr>query_info := Reply 6000\<rparr>) started)) = Some 7
   \<and> trace (snd (choose_wait (calm\<lparr>query_info := Reply 6000\<rparr>) started)) =
       [LogInfo ''XScreenSaver extension detected for idle timing'',
        CreateWindow 7, MapWindow 7, Sync,
        LogInfo ''Overlay created and mapped; screen blanked'',
        Run ''xset dpms force off'', LogInfo ''Screen blanked (DPMS off)'']
   \<and> fst (run_iteration pyxlib (calm\<lparr>query_info := Reply 6000\<rparr>) Nothing started) = Blocked
   \<and> choose_wait calm started = (Inr (Some 5), started)
   \<and> fst (run_iteration pyxlib calm Nothing started) = Continue
   \<and> choose_wait calm (snd (choose_wait (calm\<lparr>query_info := Reply 6000\<rparr>) started)) =
       (Inr None, snd (choose_wait (calm\<lparr>query_info := Reply 6000\<rparr>) started))"
proof -
  let ?e = "calm\<lparr>query_info := Reply 6000\<rparr>"
  let ?b = "snd (choose_wait ?e started)"
  have r: "reachable pyxlib started" by (rule reachable_init [OF init_started])
  have rb: "reachable pyxlib ?b" by (rule reachable_step [OF r step_wait])
  have g1: "get_idle_seconds ?e started = (6, started)"
    by (simp add: get_idle_seconds_def calm_def started_def)
  have g2: "get_idle_seconds calm started = (0, started)"
    by (simp add: get_idle_seconds_def calm_def started_def)
  have a: "\<not> blanked started" "timeout started = 5" "create_window ?e = Reply 7"
    "win_map ?e = Reply ()" "disp_sync ?e = Reply ()" "subprocess_run ?e = Reply ()"
    "trace started = [LogInfo ''XScreenSaver extension detected for idle timing'']"
    by (simp_all add: started_def calm_def)
  from wait_timeout [OF r, where e = ?e and a = Nothing]
  have 1: "fst (choose_wait ?e started) = Inr None
    \<and> fst (run_iteration pyxlib ?e Nothing started) = Blocked
    \<and> blanked ?b \<and> overlay ?b = Some 7
    \<and> trace ?b =
       [LogInfo ''XScreenSaver extension detected for idle timing'',
        CreateWindow 7, MapWindow 7, Sync,
        LogInfo ''Overlay created and mapped; screen blanked'',
        Run ''xset dpms force off'', LogInfo ''Screen blanked (DPMS off)'']"
    using a by (auto simp: g1)
  from wait_timeout [OF r, where e = calm and a = Nothing]
  have 2: "choose_wait calm started = (Inr (Some 5), started)
    \<and> fst (run_iteration pyxlib calm Nothing started) = Continue"
    using a by (auto simp: g2)
  from wait_timeout [OF rb, where e = calm and a = Nothing] 1
  have 3: "choose_wait calm ?b = (Inr None, ?b)" by auto
  show ?thesis using 1 2 3 by simp
qed

text \<open>
  C4. When a batch is drained while \<open>blanked\<close> is true (with \<^verbatim>\<open>swallow_if_blanked\<close> at its
  default), the first event that qualifies as a wake trigger is the only one that takes
  the Blanked to Awake transition: the events before it leave the daemon blanked and
  write nothing to the trace, \<^verbatim>\<open>wake_screen\<close> runs once on it, and every later event of the
  batch is handled with \<open>blanked\<close> false, exactly as in the Awake state (the swallow flag
  makes no difference), with no further entry in the trace. A batch without a qualifying
  event leaves the daemon blanked. In particular, under the raw subscription, for the
  batch RawTouchBegin, RawMotion, RawButtonPress only RawTouchBegin wakes: the result is
  the state after \<^verbatim>\<open>wake_screen\<close> for the first event, with the other two counted as
  activity.
\<close>

theorem first_qualifying_event_wakes:
  "(blanked s \<and> (\<forall>x \<in> set pre. \<not> wake_trigger L s (fst x)) \<and> wake_trigger L s ev \<longrightarrow>
      (let s1 = snd (process_events L True pre s);
           s2 = snd (wake_screen e s1);
           s3 = snd (process_events L True post s2)
       in process_events L True (pre @ (ev, e) # post) s = (Inr True, s3)
          \<and> blanked s1 \<and> trace s1 = trace s \<and> overlay s1 = overlay s
          \<and> \<not> blanked s2 \<and> overlay s2 = None
          \<and> (\<forall>k. \<not> blanked (snd (process_events L True (take k post) s2))
                \<and> trace (snd (process_events L True (take k post) s2)) = trace s2)
          \<and> process_events L True post s2 = process_events L False post s2
          \<and> \<not> blanked s3 \<and> trace s3 = trace s2 \<and> overlay s3 = None))
   \<and> (blanked s \<and> (\<forall>x \<in> set batch. \<not> wake_trigger L s (fst x)) \<longrightarrow>
        blanked (snd (process_events L True batch s))
        \<and> trace (snd (process_events L True batch s)) = trace s)
   \<and> (blanked s \<and> xi2_raw_enabled s \<and> distinct (List.map_filter (xinput L) raw_names)
        \<and> core_names L g = None \<and> xinput L ''RawTouchBegin'' = Some c1
        \<and> xinput L ''RawMotion'' = Some c2 \<and> xinput L ''RawButtonPress'' = Some c3 \<longrightarrow>
        process_events L True
          [(Event g (Some c1), e1), (Event g (Some c2), e2), (Event g (Some c3), e3)] s =
          (Inr True,
           if ss_available s then snd (wake_screen e1 s)
           else (snd (wake_screen e1 s))\<lparr>last_activity := time_time e3\<rparr>)
        \<and> trace (snd (process_events L True
              [(Event g (Some c1), e1), (Event g (Some c2), e2), (Event g (Some c3), e3)] s))
            = trace (snd (wake_screen e1 s)))"
proof (intro conjI impI)
  assume a: "blanked s \<and> (\<forall>x \<in> set pre. \<not> wake_trigger L s (fst x)) \<and> wake_trigger L s ev"
  let ?s1 = "snd (process_events L True pre s)"
  let ?s2 = "snd (wake_screen e ?s1)"
  have q: "blanked ?s1" "trace ?s1 = trace s" "overlay ?s1 = overlay s"
    using a process_events_quiet [where pre = pre and L = L and s = s and sw = True] by simp_all
  have w: "\<not> blanked ?s2" "overlay ?s2 = None" using q(1) by simp_all
  show "let s1 = snd (process_events L True pre s);
            s2 = snd (wake_screen e s1);
            s3 = snd (process_events L True post s2)
        in process_events L True (pre @ (ev, e) # post) s = (Inr True, s3)
           \<and> blanked s1 \<and> trace s1 = trace s \<and> overlay s1 = overlay s
           \<and> \<not> blanked s2 \<and> overlay s2 = None
           \<and> (\<forall>k. \<not> blanked (snd (process_events L True (take k post) s2))
                 \<and> trace (snd (process_events L True (take k post) s2)) = trace s2)
           \<and> process_events L True post s2 = process_events L False post s2
           \<and> \<not> blanked s3 \<and> trace s3 = trace s2 \<and> overlay s3 = None"
    unfolding Let_def
    using first_trigger [where s = s and pre = pre and L = L and ev = ev and e = e and post = post] a q w process_events_awake(1-3) [OF w(1), where L = L]
      process_events_awake(4) [OF w(1), where L = L and batch = post]
    by simp
next
  assume "blanked s \<and> (\<forall>x \<in> set batch. \<not> wake_trigger L s (fst x))"
  then show "blanked (snd (process_events L True batch s))"
    and "trace (snd (process_events L True batch s)) = trace s"
    using process_events_quiet [where pre = batch and L = L and s = s and sw = True] by simp_all
next
  assume a: "blanked s \<and> xi2_raw_enabled s \<and> distinct (List.map_filter (xinput L) raw_names)
        \<and> core_names L g = None \<and> xinput L ''RawTouchBegin'' = Some c1
        \<and> xinput L ''RawMotion'' = Some c2 \<and> xinput L ''RawButtonPress'' = Some c3"
  then have r: "process_events L True
           [(Event g (Some c1), e1), (Event g (Some c2), e2), (Event g (Some c3), e3)] s =
         (Inr True,
          if ss_available s then snd (wake_screen e1 s)
          else (snd (wake_screen e1 s))\<lparr>last_activity := time_time e3\<rparr>)"
    by (intro scenario_E) simp_all
  show "process_events L True
           [(Event g (Some c1), e1), (Event g (Some c2), e2), (Event g (Some c3), e3)] s =
         (Inr True,
          if ss_available s then snd (wake_screen e1 s)
          else (snd (wake_screen e1 s))\<lparr>last_activity := time_time e3\<rparr>)"
    by (rule r)
  show "trace (snd (process_events L True
              [(Event g (Some c1), e1), (Event g (Some c2), e2), (Event g (Some c3), e3)] s))
            = trace (snd (wake_screen e1 s))"
    by (simp add: r)
qed

text \<open>
  The instance of C4 for the batch RawTouchBegin (22), RawMotion (17), RawButtonPress (15)
  on a blanked daemon: one power-on, one settle delay and one destruction of the overlay.
\<close>

theorem first_qualifying_event_wakes_witness:
  "process_events pyxlib True
     [(Event 35 (Some 22), calm), (Event 35 (Some 17), calm), (Event 35 (Some 15), calm)] dark =
     (Inr True, (snd (wake_screen calm dark))\<lparr>last_activity := 100\<rparr>)
   \<and> trace (snd (process_events pyxlib True
        [(Event 35 (Some 22), calm), (Event 35 (Some 17), calm), (Event 35 (Some 15), calm)] dark)) =
       [Run ''xset dpms force on'', Sleep (5 / 100), UnmapWindow 7, DestroyWindow 7, Sync,
        LogInfo ''Overlay destroyed'', LogInfo ''Screen awakened; first touch swallowed'']
   \<and> \<not> blanked (snd (process_events pyxlib True
        [(Event 35 (Some 22), calm), (Event 35 (Some 17), calm), (Event 35 (Some 15), calm)] dark))"
proof -
  have d: "distinct (List.map_filter (xinput pyxlib) raw_names)"
    by (simp add: pyxlib_def raw_names_def List.map_filter_simps)
  have s: "blanked dark" "xi2_raw_enabled dark" "\<not> ss_available dark"
    by (simp_all add: dark_def)
  have c: "core_names pyxlib 35 = None" "xinput pyxlib ''RawTouchBegin'' = Some 22"
    "xinput pyxlib ''RawMotion'' = Some 17" "xinput pyxlib ''RawButtonPress'' = Some 15"
    by (simp_all add: pyxlib_def core_names_def)
  have "raw_name pyxlib 22 = ''RawTouchBegin''"
    by (rule raw_name_found [OF d _ c(2)]) (simp add: raw_names_def)
  then have t: "wake_trigger pyxlib dark (Event 35 (Some 22))"
    using s by (simp add: wake_trigger_def wake_names_def)
  have w: "trace (snd (wake_screen calm dark)) =
       [Run ''xset dpms force on'', Sleep (5 / 100), UnmapWindow 7, DestroyWindow 7, Sync,
        LogInfo ''Overlay destroyed'', LogInfo ''Screen awakened; first touch swallowed'']"
    by (simp add: wake_screen_alt destroy_overlay_alt destroy_try_def run_cmd_def calm_def dark_def
        emit_def)
  have n: "time_time calm = 100" by (simp add: calm_def)
  from first_qualifying_event_wakes
    [where s = dark and L = pyxlib and pre = "[]" and ev = "Event 35 (Some 22)" and e = calm
      and post = "[(Event 35 (Some 17), calm), (Event 35 (Some 15), calm)]" and batch = "[]"
      and g = 35 and ?c1.0 = 22 and ?c2.0 = 17 and ?c3.0 = 15 and ?e1.0 = calm and ?e2.0 = calm
      and ?e3.0 = calm]
  show ?thesis using d s c t w n by simp
qed

text \<open>
  C5. The flag of the platform idle query never goes back up: over any sequence of calls
  and loop passes, \<open>ss_available\<close> at the end implies \<open>ss_available\<close> at the start. A query
  that fails sets the flag to false and \<^verbatim>\<open>get_idle_seconds\<close> returns the fallback value
  \<open>max 0 (now - last_activity)\<close>; once the flag is false every later call of
  \<^verbatim>\<open>get_idle_seconds\<close> returns the fallback value, whatever the query would answer.
\<close>

theorem idle_fallback_is_permanent:
  "(later L s s' \<and> ss_available s' \<longrightarrow> ss_available s)
   \<and> (ss_available s \<and> query_info e = Fails \<longrightarrow>
        \<not> ss_available (snd (get_idle_seconds e s))
        \<and> fst (get_idle_seconds e s) = max 0 (time_time e - last_activity s))
   \<and> (\<not> ss_available s \<and> later L s s' \<longrightarrow>
        get_idle_seconds e' s' = (max 0 (time_time e' - last_activity s'), s'))"
proof (intro conjI impI)
  assume a: "later L s s' \<and> ss_available s'"
  have "ss_available s' \<longrightarrow> ss_available s"
    by (rule later_preserves [of "\<lambda>t. ss_available t \<longrightarrow> ss_available s" L s s'])
      (simp_all add: a get_idle_seconds_ss handle_event_alt)
  then show "ss_available s" using a by simp
next
  assume "ss_available s \<and> query_info e = Fails"
  then show "\<not> ss_available (snd (get_idle_seconds e s))"
    and "fst (get_idle_seconds e s) = max 0 (time_time e - last_activity s)"
    by (simp_all add: get_idle_seconds_def)
next
  assume a: "\<not> ss_available s \<and> later L s s'"
  have "ss_available s' \<longrightarrow> ss_available s"
    by (rule later_preserves [of "\<lambda>t. ss_available t \<longrightarrow> ss_available s" L s s'])
      (simp_all add: a get_idle_seconds_ss handle_event_alt)
  then have "\<not> ss_available s'" using a by simp
  then show "get_idle_seconds e' s' = (max 0 (time_time e' - last_activity s'), s')"
    by (simp add: get_idle_seconds_def)
qed

text \<open>
  The instance of C5: the query fails 30 s after the last activity; a later call, 60 s
  after it, answers 60 although the query would succeed again.
\<close>

theorem idle_fallback_is_permanent_witness:
  "\<not> ss_available (snd (get_idle_seconds (calm\<lparr>query_info := Fails, time_time := 130\<rparr>) started))
   \<and> fst (get_idle_seconds (calm\<lparr>query_info := Fails, time_time := 130\<rparr>) started) = 30
   \<and> get_idle_seconds (calm\<lparr>time_time := 160\<rparr>)
         (snd (get_idle_seconds (calm\<lparr>query_info := Fails, time_time := 130\<rparr>) started)) =
       (60, snd (get_idle_seconds (calm\<lparr>query_info := Fails, time_time := 130\<rparr>) started))"
proof -
  let ?e = "calm\<lparr>query_info := Fails, time_time := 130\<rparr>"
  let ?s = "snd (get_idle_seconds ?e started)"
  have l: "later pyxlib ?s ?s" by (rule later_refl)
  have a: "ss_available started" "query_info ?e = Fails" "time_time ?e = 130"
    "last_activity started = 100" "time_time (calm\<lparr>time_time := 160\<rparr>) = 160"
    by (simp_all add: started_def calm_def)
  from idle_fallback_is_permanent
    [where L = pyxlib and s = started and s' = started and e = ?e and e' = calm]
    idle_fallback_is_permanent
    [where L = pyxlib and s = ?s and s' = ?s and e = ?e and e' = "calm\<lparr>time_time := 160\<rparr>"]
  show ?thesis using l a by simp
qed

text \<open>
  C6. \<^verbatim>\<open>create_overlay\<close> with an overlay present changes nothing, so a second call after
  one that returned creates no second window; \<^verbatim>\<open>destroy_overlay\<close> without an overlay
  changes nothing, so a second call after any first one changes nothing;
  \<^verbatim>\<open>blank_screen\<close> on a blanked daemon creates nothing and runs no command, so a second
  Blank after one that returned leaves the state, and with it the trace, as the first
  one left it: one window, one power-off.
\<close>

theorem blank_idempotent:
  "(overlay s \<noteq> None \<longrightarrow> create_overlay e s = (Inr (), s))
   \<and> (overlay s = None \<longrightarrow> destroy_overlay e s = (Inr (), s))
   \<and> (blanked s \<longrightarrow> blank_screen e s = (Inr (), s))
   \<and> (fst (create_overlay e s) = Inr () \<longrightarrow>
        create_overlay e' (snd (create_overlay e s)) = (Inr (), snd (create_overlay e s)))
   \<and> destroy_overlay e' (snd (destroy_overlay e s)) = (Inr (), snd (destroy_overlay e s))
   \<and> (fst (blank_screen e s) = Inr () \<longrightarrow>
        blank_screen e' (snd (blank_screen e s)) = (Inr (), snd (blank_screen e s)))
   \<and> (\<not> blanked s \<and> overlay s = None \<and> create_window e = Reply w \<and> win_map e = Reply ()
        \<and> disp_sync e = Reply () \<and> subprocess_run e = Reply () \<longrightarrow>
        trace (snd (blank_screen e s)) =
          trace s @ [CreateWindow w, MapWindow w, Sync,
                     LogInfo ''Overlay created and mapped; screen blanked'',
                     Run ''xset dpms force off'', LogInfo ''Screen blanked (DPMS off)'']
        \<and> trace (snd (blank_screen e' (snd (blank_screen e s)))) = trace (snd (blank_screen e s)))"
proof (intro conjI impI)
  show "create_overlay e s = (Inr (), s)" if "overlay s \<noteq> None"
    using that by (rule create_overlay_present)
  show "destroy_overlay e s = (Inr (), s)" if "overlay s = None"
    using that by (simp add: destroy_overlay_def)
  show "blank_screen e s = (Inr (), s)" if "blanked s"
    using that by (simp add: blank_screen_def)
  show "create_overlay e' (snd (create_overlay e s)) = (Inr (), snd (create_overlay e s))"
    if "fst (create_overlay e s) = Inr ()"
    by (rule create_overlay_present) (rule create_overlay_done [OF that])
  show "destroy_overlay e' (snd (destroy_overlay e s)) = (Inr (), snd (destroy_overlay e s))"
    by (simp add: destroy_overlay_def [of e'])
  show "blank_screen e' (snd (blank_screen e s)) = (Inr (), snd (blank_screen e s))"
    if "fst (blank_screen e s) = Inr ()"
    using that blank_screen_blanked [of e s] by (simp add: blank_screen_def [of e'])
next
  assume a: "\<not> blanked s \<and> overlay s = None \<and> create_window e = Reply w \<and> win_map e = Reply ()
        \<and> disp_sync e = Reply () \<and> subprocess_run e = Reply ()"
  then show t: "trace (snd (blank_screen e s)) =
          trace s @ [CreateWindow w, MapWindow w, Sync,
                     LogInfo ''Overlay created and mapped; screen blanked'',
                     Run ''xset dpms force off'', LogInfo ''Screen blanked (DPMS off)'']"
    by (simp add: blank_screen_alt create_overlay_def run_cmd_def)
  have "fst (blank_screen e s) = Inr ()"
    using a by (simp add: blank_screen_alt create_overlay_def)
  then have "blanked (snd (blank_screen e s))" using blank_screen_blanked [of e s] by simp
  then show "trace (snd (blank_screen e' (snd (blank_screen e s)))) = trace (snd (blank_screen e s))"
    by (simp add: blank_screen_def [of e'])
qed

text \<open>
  The instance of C6 for the daemon after the constructor: after two calls of
  \<^verbatim>\<open>blank_screen\<close> the trace holds one window and one power-off.
\<close>

theorem blank_idempotent_witness:
  "blank_screen calm (snd (blank_screen calm started)) = (Inr (), snd (blank_screen calm started))
   \<and> trace (snd (blank_screen calm (snd (blank_screen calm started)))) =
       [LogInfo ''XScreenSaver extension detected for idle timing'',
        CreateWindow 7, MapWindow 7, Sync,
        LogInfo ''Overlay created and mapped; screen blanked'',
        Run ''xset dpms force off'', LogInfo ''Screen blanked (DPMS off)'']
   \<and> create_overlay calm dark = (Inr (), dark)
   \<and> destroy_overlay calm started = (Inr (), started)
   \<and> blank_screen calm dark = (Inr (), dark)"
proof -
  have a: "\<not> blanked started" "overlay started = None" "create_window calm = Reply 7"
    "win_map calm = Reply ()" "disp_sync calm = Reply ()" "subprocess_run calm = Reply ()"
    "overlay dark = Some 7" "blanked dark"
    "trace started = [LogInfo ''XScreenSaver extension detected for idle timing'']"
    by (simp_all add: started_def calm_def dark_def)
  have f: "fst (blank_screen calm started) = Inr ()"
    by (simp add: blank_screen_alt create_overlay_def a)
  from blank_idempotent [where s = started and e = calm and e' = calm and w = 7]
    blank_idempotent [where s = dark and e = calm and e' = calm and w = 7]
  show ?thesis using a f by simp
qed

text \<open>
  C7. \<^verbatim>\<open>wake_screen\<close> on a daemon that is not blanked changes nothing. On a blanked daemon
  it runs the power-on command, then sleeps for the fixed 0.05 s, then destroys the
  overlay (the daemon is still blanked when the destruction ends), then sets \<open>blanked\<close>
  to false and \<open>last_activity\<close> to the current time. When every call returns, the trace
  grows by exactly: power-on, sleep, unmap, destroy, sync and the two log lines.
\<close>

theorem wake_sequence:
  "(\<not> blanked s \<longrightarrow> wake_screen e s = (Inr (), s))
   \<and> (blanked s \<longrightarrow>
        (let s1 = run_cmd e ''xset dpms force on'' s;
             s2 = emit (Sleep (5 / 100)) s1;
             s3 = snd (destroy_overlay e s2)
         in wake_screen e s =
              (Inr (),
               emit (LogInfo ''Screen awakened; first touch swallowed'')
                 (s3\<lparr>blanked := False, last_activity := time_time e\<rparr>))
            \<and> trace s1 = trace s @ [case subprocess_run e of
                                      Reply _ \<Rightarrow> Run ''xset dpms force on''
                                    | Fails \<Rightarrow> LogWarning ''command failed'']
            \<and> trace s2 = trace s1 @ [Sleep (5 / 100)]
            \<and> overlay s2 = overlay s \<and> blanked s2
            \<and> (\<exists>d. trace s3 = trace s2 @ d)
            \<and> overlay s3 = None \<and> blanked s3 \<and> last_activity s3 = last_activity s)
        \<and> \<not> blanked (snd (wake_screen e s))
        \<and> overlay (snd (wake_screen e s)) = None
        \<and> last_activity (snd (wake_screen e s)) = time_time e)
   \<and> (blanked s \<and> overlay s = Some w \<and> subprocess_run e = Reply () \<and> ov_unmap e = Reply ()
        \<and> ov_destroy e = Reply () \<and> disp_sync e = Reply () \<longrightarrow>
        trace (snd (wake_screen e s)) =
          trace s @ [Run ''xset dpms force on'', Sleep (5 / 100), UnmapWindow w, DestroyWindow w,
                     Sync, LogInfo ''Overlay destroyed'',
                     LogInfo ''Screen awakened; first touch swallowed''])"
proof (intro conjI impI)
  show "wake_screen e s = (Inr (), s)" if "\<not> blanked s"
    using that by (simp add: wake_screen_def)
next
  assume b: "blanked s"
  have d: "\<exists>d. trace (snd (destroy_overlay e t)) = trace t @ d" for t
    by (simp add: destroy_overlay_alt destroy_try_def split: option.splits reply.splits)
  show "let s1 = run_cmd e ''xset dpms force on'' s;
            s2 = emit (Sleep (5 / 100)) s1;
            s3 = snd (destroy_overlay e s2)
        in wake_screen e s =
             (Inr (),
              emit (LogInfo ''Screen awakened; first touch swallowed'')
                (s3\<lparr>blanked := False, last_activity := time_time e\<rparr>))
           \<and> trace s1 = trace s @ [case subprocess_run e of
                                     Reply _ \<Rightarrow> Run ''xset dpms force on''
                                   | Fails \<Rightarrow> LogWarning ''command failed'']
           \<and> trace s2 = trace s1 @ [Sleep (5 / 100)]
           \<and> overlay s2 = overlay s \<and> blanked s2
           \<and> (\<exists>d. trace s3 = trace s2 @ d)
           \<and> overlay s3 = None \<and> blanked s3 \<and> last_activity s3 = last_activity s"
    unfolding Let_def
    using b d [of "emit (Sleep (5 / 100)) (run_cmd e ''xset dpms force on'' s)"]
    by (auto simp: wake_screen_alt run_cmd_trace)
  show "\<not> blanked (snd (wake_screen e s))" by simp
  show "overlay (snd (wake_screen e s)) = None" using b by simp
  show "last_activity (snd (wake_screen e s)) = time_time e" using b by simp
next
  assume "blanked s \<and> overlay s = Some w \<and> subprocess_run e = Reply () \<and> ov_unmap e = Reply ()
        \<and> ov_destroy e = Reply () \<and> disp_sync e = Reply ()"
  then show "trace (snd (wake_screen e s)) =
          trace s @ [Run ''xset dpms force on'', Sleep (5 / 100), UnmapWindow w, DestroyWindow w,
                     Sync, LogInfo ''Overlay destroyed'',
                     LogInfo ''Screen awakened; first touch swallowed'']"
    by (simp add: wake_screen_alt destroy_overlay_alt destroy_try_def run_cmd_def)
qed

text \<open>The instance of C7 for a blanked daemon holding window 7, and for an awake one.\<close>

theorem wake_sequence_witness:
  "trace (snd (wake_screen calm dark)) =
     [Run ''xset dpms force on'', Sleep (5 / 100), UnmapWindow 7, DestroyWindow 7, Sync,
      LogInfo ''Overlay destroyed'', LogInfo ''Screen awakened; first touch swallowed'']
   \<and> \<not> blanked (snd (wake_screen calm dark))
   \<and> overlay (snd (wake_screen calm dark)) = None
   \<and> last_activity (snd (wake_screen calm dark)) = 100
   \<and> wake_screen calm started = (Inr (), started)"
proof -
  have a: "blanked dark" "overlay dark = Some 7" "subprocess_run calm = Reply ()"
    "ov_unmap calm = Reply ()" "ov_destroy calm = Reply ()" "disp_sync calm = Reply ()"
    "trace dark = []" "\<not> blanked started" "time_time calm = 100"
    by (simp_all add: dark_def calm_def started_def)
  from wake_sequence [where s = dark and e = calm and w = 7]
    wake_sequence [where s = started and e = calm and w = 7]
  show ?thesis using a by simp
qed

text \<open>
  C8. No exception leaves \<^verbatim>\<open>destroy_overlay\<close>, whatever the unmap, destroy and sync calls
  do: a raise inside the \<^verbatim>\<open>try\<close> block is logged as a warning (the last entry of the
  trace), and the handle is \<open>None\<close> after every call. \<^verbatim>\<open>wake_screen\<close>, its caller,
  therefore always returns, and after it the overlay is absent and \<open>blanked\<close> is false:
  the invariant of C1 holds again also when the destruction failed.
\<close>

theorem destroy_overlay_absorbs_errors:
  "fst (destroy_overlay e s) = Inr ()
   \<and> overlay (snd (destroy_overlay e s)) = None
   \<and> blanked (snd (destroy_overlay e s)) = blanked s
   \<and> (overlay s = Some w \<longrightarrow>
        (fst (destroy_try e w s) = Inl XError) =
          (ov_unmap e = Fails \<or> ov_destroy e = Fails \<or> disp_sync e = Fails)
        \<and> (if fst (destroy_try e w s) = Inl XError
            then last (trace (snd (destroy_overlay e s))) = LogWarning ''failed destroying overlay''
            else trace (snd (destroy_overlay e s)) =
                   trace s @ [UnmapWindow w, DestroyWindow w, Sync, LogInfo ''Overlay destroyed'']))
   \<and> fst (wake_screen e s) = Inr ()
   \<and> (blanked s \<longrightarrow>
        overlay (snd (wake_screen e s)) = None \<and> \<not> blanked (snd (wake_screen e s)))"
proof (intro conjI impI)
  show "fst (destroy_overlay e s) = Inr ()" by (rule destroy_overlay_returns)
  show "overlay (snd (destroy_overlay e s)) = None" by simp
  show "blanked (snd (destroy_overlay e s)) = blanked s" by simp
  show "fst (wake_screen e s) = Inr ()" by (rule wake_screen_returns)
  show "overlay (snd (wake_screen e s)) = None" if "blanked s" using that by simp
  show "\<not> blanked (snd (wake_screen e s))" by simp
next
  assume w: "overlay s = Some w"
  show "(fst (destroy_try e w s) = Inl XError) =
          (ov_unmap e = Fails \<or> ov_destroy e = Fails \<or> disp_sync e = Fails)"
    by (rule destroy_try_fails)
  show "if fst (destroy_try e w s) = Inl XError
        then last (trace (snd (destroy_overlay e s))) = LogWarning ''failed destroying overlay''
        else trace (snd (destroy_overlay e s)) =
               trace s @ [UnmapWindow w, DestroyWindow w, Sync, LogInfo ''Overlay destroyed'']"
    using w by (simp add: destroy_overlay_alt destroy_try_def split: reply.splits)
qed

text \<open>
  The instance of C8 where destroying window 7 raises after the unmap: the warning is
  logged, the handle is cleared, and \<^verbatim>\<open>wake_screen\<close> ends awake without an overlay.
\<close>

theorem destroy_overlay_absorbs_errors_witness:
  "fst (destroy_overlay (calm\<lparr>ov_destroy := Fails\<rparr>) dark) = Inr ()
   \<and> overlay (snd (destroy_overlay (calm\<lparr>ov_destroy := Fails\<rparr>) dark)) = None
   \<and> trace (snd (destroy_overlay (calm\<lparr>ov_destroy := Fails\<rparr>) dark)) =
       [UnmapWindow 7, LogWarning ''failed destroying overlay'']
   \<and> \<not> blanked (snd (wake_screen (calm\<lparr>ov_destroy := Fails\<rparr>) dark))
   \<and> overlay (snd (wake_screen (calm\<lparr>ov_destroy := Fails\<rparr>) dark)) = None"
proof -
  have a: "overlay dark = Some 7" "blanked dark" "ov_destroy (calm\<lparr>ov_destroy := Fails\<rparr>) = Fails"
    by (simp_all add: dark_def)
  have t: "trace (snd (destroy_overlay (calm\<lparr>ov_destroy := Fails\<rparr>) dark)) =
       [UnmapWindow 7, LogWarning ''failed destroying overlay'']"
    by (simp add: destroy_overlay_alt destroy_try_def dark_def calm_def emit_def)
  from destroy_overlay_absorbs_errors [where e = "calm\<lparr>ov_destroy := Fails\<rparr>" and s = dark and w = 7]
  show ?thesis using a t by simp
qed

text \<open>
  C9 as stated fails. The daemon selects \<^verbatim>\<open>StructureNotifyMask\<close> on the root window (line
  78), so it observes events that are neither core input events nor XI2 events, such as
  ConfigureNotify (type 22). Awake and on the fallback path, \<^verbatim>\<open>process_events\<close> takes
  neither branch for such an event: \<open>last_activity\<close> stays at 100 although the clock reads
  130, and the batch is reported as no activity.
\<close>

theorem unknown_event_is_no_activity:
  "\<not> blanked fallback \<and> \<not> ss_available fallback
   \<and> process_events pyxlib True [(Event 22 None, calm\<lparr>time_time := 130\<rparr>)] fallback =
       (Inr False, fallback)
   \<and> last_activity fallback \<noteq> time_time (calm\<lparr>time_time := 130\<rparr>)"
  by (simp add: process_events_def handle_event_def fallback_def pyxlib_def core_names_def)

text \<open>
  C9, amended. While Awake with the fallback idle path active (\<open>ss_available\<close> false),
  handling a core KeyPress, KeyRelease, ButtonPress, ButtonRelease or MotionNotify event,
  or an XI2 event under the raw subscription (\<open>xi2_raw_enabled\<close> true), sets
  \<open>last_activity\<close> to the current time and counts as activity; an event of any other kind
  changes nothing. Handling an event while Awake keeps the daemon Awake and touches
  neither the overlay nor the trace.
\<close>

theorem input_event_is_activity:
  "(\<not> blanked s \<and> \<not> ss_available s \<longrightarrow>
      (if etype ev \<in> X L ` {''KeyPress'', ''KeyRelease'', ''ButtonPress'', ''ButtonRelease'',
                              ''MotionNotify''}
          \<or> (xi2_raw_enabled s \<and> evtype ev \<noteq> None)
       then handle_event L sw ev e (a, s) = (Inr True, s\<lparr>last_activity := time_time e\<rparr>)
       else handle_event L sw ev e (a, s) = (Inr a, s)))
   \<and> (\<not> blanked s \<longrightarrow>
        \<not> blanked (snd (handle_event L sw ev e (a, s)))
        \<and> ss_available (snd (handle_event L sw ev e (a, s))) = ss_available s
        \<and> overlay (snd (handle_event L sw ev e (a, s))) = overlay s
        \<and> trace (snd (handle_event L sw ev e (a, s))) = trace s)"
proof -
  have c: "etype ev \<in> X L ` {''KeyPress'', ''KeyRelease'', ''ButtonPress'', ''ButtonRelease'',
      ''MotionNotify''} \<or> (xi2_raw_enabled s \<and> evtype ev \<noteq> None) \<longleftrightarrow> observed L s ev"
    unfolding observed_def core_names_iff ..
  show ?thesis
    unfolding c by (simp add: handle_event_alt)
qed

text \<open>
  The instance of the amended C9: a ButtonPress and a RawMotion move \<open>last_activity\<close> to
  130, a ConfigureNotify does not.
\<close>

theorem input_event_is_activity_witness:
  "handle_event pyxlib True (Event 4 None) (calm\<lparr>time_time := 130\<rparr>) (False, fallback) =
     (Inr True, fallback\<lparr>last_activity := 130\<rparr>)
   \<and> handle_event pyxlib True (Event 35 (Some 17)) (calm\<lparr>time_time := 130\<rparr>) (False, fallback) =
     (Inr True, fallback\<lparr>last_activity := 130\<rparr>)
   \<and> handle_event pyxlib True (Event 22 None) (calm\<lparr>time_time := 130\<rparr>) (False, fallback) =
     (Inr False, fallback)"
proof -
  have a: "\<not> blanked fallback" "\<not> ss_available fallback" "xi2_raw_enabled fallback"
    by (simp_all add: fallback_def)
  from input_event_is_activity
      [where s = fallback and L = pyxlib and ev = "Event 4 None" and sw = True and a = False
        and e = "calm\<lparr>time_time := 130\<rparr>"]
    input_event_is_activity
      [where s = fallback and L = pyxlib and ev = "Event 35 (Some 17)" and sw = True and a = False
        and e = "calm\<lparr>time_time := 130\<rparr>"]
    input_event_is_activity
      [where s = fallback and L = pyxlib and ev = "Event 22 None" and sw = True and a = False
        and e = "calm\<lparr>time_time := 130\<rparr>"]
  show ?thesis using a by (simp add: pyxlib_def)
qed

text \<open>
  C10. No call and no pass of the main loop changes \<open>xi2_raw_enabled\<close> or selects XI2
  events: the flag can only be set by the constructor, and the constructor sets it only
  when its own idle query failed (\<open>ss_available\<close> false). When the query succeeds at
  startup, the flag is false and no XI2 selection was made in any later state, also
  after \<^verbatim>\<open>get_idle_seconds\<close> has degraded to the fallback path.
\<close>

theorem raw_subscription_only_at_startup:
  "(later L s s' \<longrightarrow>
      xi2_raw_enabled s' = xi2_raw_enabled s
      \<and> (XISelectEvents ms \<in> set (trace s') \<longrightarrow> XISelectEvents ms \<in> set (trace s)))
   \<and> (init L t e = Inr s0 \<and> xi2_raw_enabled s0 \<longrightarrow> query_info e = Fails \<and> \<not> ss_available s0)
   \<and> (init L t e = Inr s0 \<and> query_info e \<noteq> Fails \<and> later L s0 s'' \<longrightarrow>
        \<not> xi2_raw_enabled s'' \<and> XISelectEvents ms \<notin> set (trace s''))
   \<and> (later L s s' \<and> ss_available s \<and> \<not> xi2_raw_enabled s \<and> query_info e' = Fails \<longrightarrow>
        \<not> ss_available (snd (get_idle_seconds e' s'))
        \<and> \<not> xi2_raw_enabled (snd (get_idle_seconds e' s')))"
proof -
  have keep: "xi2_raw_enabled v = xi2_raw_enabled u
      \<and> (XISelectEvents ms \<in> set (trace v) \<longrightarrow> XISelectEvents ms \<in> set (trace u))"
    if "later L u v" for u v
    by (rule later_preserves
        [of "\<lambda>x. xi2_raw_enabled x = xi2_raw_enabled u
              \<and> (XISelectEvents ms \<in> set (trace x) \<longrightarrow> XISelectEvents ms \<in> set (trace u))"
          L u v])
      (simp_all add: that select_blank_screen select_wake_screen select_get_idle_seconds
        select_handle_event)
  show ?thesis
  proof (intro conjI impI)
    assume "later L s s'"
    from keep [OF this] show "xi2_raw_enabled s' = xi2_raw_enabled s" by simp
  next
    assume "later L s s'" and "XISelectEvents ms \<in> set (trace s')"
    with keep [of s s'] show "XISelectEvents ms \<in> set (trace s)" by simp
  next
    assume a: "init L t e = Inr s0 \<and> xi2_raw_enabled s0"
    then show "query_info e = Fails" and "\<not> ss_available s0"
      using init_raw [of L t e s0] by simp_all
  next
    assume a: "init L t e = Inr s0 \<and> query_info e \<noteq> Fails \<and> later L s0 s''"
    then show "\<not> xi2_raw_enabled s''" and "XISelectEvents ms \<notin> set (trace s'')"
      using init_no_raw [of L t e s0 ms] keep [of s0 s''] by auto
  next
    assume a: "later L s s' \<and> ss_available s \<and> \<not> xi2_raw_enabled s \<and> query_info e' = Fails"
    then show "\<not> ss_available (snd (get_idle_seconds e' s'))"
      by (simp add: get_idle_seconds_ss)
    show "\<not> xi2_raw_enabled (snd (get_idle_seconds e' s'))"
      using a keep [of s s'] by simp
  qed
qed

text \<open>
  The instance of C10: the constructor finds the idle query, a later query fails; the
  daemon is then on the fallback path without the raw subscription.
\<close>

theorem raw_subscription_only_at_startup_witness:
  "\<not> ss_available (snd (get_idle_seconds (calm\<lparr>query_info := Fails\<rparr>) started))
   \<and> \<not> xi2_raw_enabled (snd (get_idle_seconds (calm\<lparr>query_info := Fails\<rparr>) started))
   \<and> XISelectEvents [17, 13, 14, 15, 16, 22, 24, 23]
       \<notin> set (trace (snd (get_idle_seconds (calm\<lparr>query_info := Fails\<rparr>) started)))"
proof -
  let ?e = "calm\<lparr>query_info := Fails\<rparr>"
  let ?s = "snd (get_idle_seconds ?e started)"
  have l: "later pyxlib started ?s" "later pyxlib started started"
    by (rule later_step [OF later_refl step_idle], rule later_refl)
  have a: "ss_available started" "\<not> xi2_raw_enabled started" "query_info ?e = Fails"
    "query_info calm \<noteq> Fails"
    by (simp_all add: started_def calm_def)
  from raw_subscription_only_at_startup
      [where L = pyxlib and s = started and s' = started and e' = ?e and t = 5 and e = calm
        and ?s0.0 = started and s'' = ?s and ms = "[17, 13, 14, 15, 16, 22, 24, 23]"]
  show ?thesis using l a init_started by simp
qed

end
